theory Spec2Isabelle
  imports Complex_Main "HOL-Library.AList"
begin

section \<open>Python values used by the scraper\<close>

text \<open>
  A Python \<open>str\<close> is a sequence of Unicode code points; it is modelled as a list of
  natural numbers. The fixed vocabularies contain letters outside ASCII
  (\<open>resoluci\<close>U+00F3\<open>n\<close>), so a list of 8-bit characters would not do. Python
  floats are modelled by exact rationals; the only float operations of the code in
  scope are one division, multiplications by 100 and by powers of two, and comparisons
  with small constants.
\<close>

type_synonym cp = nat
type_synonym pystr = "cp list"

definition ascii :: "string \<Rightarrow> pystr" where
  "ascii s = map of_char s"

text \<open>
  The character tables and library functions of CPython that the code calls but that
  are not part of the repository: \<open>str.lower\<close>, \<open>str.isspace\<close> (also the regular
  expression class \<open>\s\<close> and the separator of \<open>str.split()\<close> and \<open>str.strip()\<close>),
  the word characters of \<open>\w\<close> and \<open>\b\<close>, the decimal digits of \<open>\d\<close>, and
  \<open>urllib.parse.urlparse(url).netloc\<close> (\<open>None\<close> when \<open>urlparse\<close> raises).
  They are parameters of every definition below.
\<close>

record pylib =
  str_lower :: "pystr \<Rightarrow> pystr"
  isspace :: "cp \<Rightarrow> bool"
  isword :: "cp \<Rightarrow> bool"
  isdecimal :: "cp \<Rightarrow> bool"
  urlparse_netloc :: "pystr \<Rightarrow> pystr option"

text \<open>\<open>str.strip()\<close>: whitespace removed at both ends.\<close>

definition strip :: "pylib \<Rightarrow> pystr \<Rightarrow> pystr" where
  "strip L s = rev (dropWhile (isspace L) (rev (dropWhile (isspace L) s)))"

text \<open>\<open>str.split()\<close>: the maximal runs of characters that are not whitespace.\<close>

fun split_acc :: "pylib \<Rightarrow> pystr \<Rightarrow> pystr \<Rightarrow> pystr list" where
  "split_acc L w [] = (if w = [] then [] else [rev w])"
| "split_acc L w (c # cs) =
     (if isspace L c then (if w = [] then split_acc L [] cs else rev w # split_acc L [] cs)
      else split_acc L (c # w) cs)"

definition split_ws :: "pylib \<Rightarrow> pystr \<Rightarrow> pystr list" where
  "split_ws L s = split_acc L [] s"

text \<open>\<open>a in b\<close> on strings: \<open>a\<close> occurs in \<open>b\<close> as a contiguous substring.\<close>

fun contains :: "pystr \<Rightarrow> pystr \<Rightarrow> bool" where
  "contains a [] = (a = [])"
| "contains a (c # cs) = (take (length a) (c # cs) = a \<or> contains a cs)"

section \<open>Regular expressions of the analyzer\<close>

text \<open>
  The patterns the analyzer builds use literals, \<open>\b\<close>, \<open>\s+\<close>, \<open>\d+\<close>, an optional
  non-capturing group and one capturing group. The matcher is a backtracking one, as
  \<open>re\<close> is: it returns the states reachable from a position in the order \<open>re\<close>
  tries them (greedy repetition first, the optional group taken first). A state is the
  position reached and the span of the capturing group, when it has matched.
\<close>

datatype charclass = Space_class | Digit_class

datatype regex =
    Lit cp
  | Plus charclass
  | Boundary
  | Seq regex regex
  | Opt regex
  | Group regex

type_synonym mstate = "nat \<times> (nat \<times> nat) option"

fun in_class :: "pylib \<Rightarrow> charclass \<Rightarrow> cp \<Rightarrow> bool" where
  "in_class L Space_class c = isspace L c"
| "in_class L Digit_class c = isdecimal L c"

text \<open>\<open>\b\<close> at position \<open>p\<close>: exactly one of the two neighbours is a word character.\<close>

definition word_at :: "pylib \<Rightarrow> pystr \<Rightarrow> nat \<Rightarrow> bool" where
  "word_at L s p = (p < length s \<and> isword L (s ! p))"

definition boundary :: "pylib \<Rightarrow> pystr \<Rightarrow> nat \<Rightarrow> bool" where
  "boundary L s p = ((0 < p \<and> word_at L s (p - 1)) \<noteq> word_at L s p)"

fun rmatch :: "pylib \<Rightarrow> regex \<Rightarrow> pystr \<Rightarrow> mstate \<Rightarrow> mstate list" where
  "rmatch L (Lit c) s (p, g) = (if p < length s \<and> s ! p = c then [(p + 1, g)] else [])"
| "rmatch L (Plus k) s (p, g) =
     map (\<lambda>n. (p + n, g)) (rev [1 ..< Suc (length (takeWhile (in_class L k) (drop p s)))])"
| "rmatch L Boundary s (p, g) = (if boundary L s p then [(p, g)] else [])"
| "rmatch L (Seq a b) s (p, g) = concat (map (rmatch L b s) (rmatch L a s (p, g)))"
| "rmatch L (Opt a) s (p, g) = rmatch L a s (p, g) @ [(p, g)]"
| "rmatch L (Group a) s (p, g) = map (\<lambda>(q, _). (q, Some (p, q))) (rmatch L a s (p, g))"

text \<open>A literal string, as \<open>re.escape\<close> makes it.\<close>

fun lits :: "pystr \<Rightarrow> regex \<Rightarrow> regex" where
  "lits [] r = r"
| "lits (c # cs) r = Seq (Lit c) (lits cs r)"

text \<open>
  \<open>re.findall(pattern, s)\<close>: the matches found scanning from the left, none
  overlapping another. After a match the scan resumes at its end; where nothing matches
  it moves one character on. (Every pattern of the analyzer contains a keyword, so no
  match is empty; the scan still moves on after an empty one.) Each match is given as
  (start, end, group span).
\<close>

function findall_from :: "pylib \<Rightarrow> regex \<Rightarrow> pystr \<Rightarrow> nat \<Rightarrow> (nat \<times> nat \<times> (nat \<times> nat) option) list" where
  "findall_from L r s p =
     (if length s < p then []
      else case rmatch L r s (p, None) of
             [] \<Rightarrow> findall_from L r s (Suc p)
           | (e, g) # _ \<Rightarrow> (p, e, g) # findall_from L r s (if p < e then e else Suc p))"
  by pat_completeness auto
termination
  by (relation "measure (\<lambda>(L, r, s, p). Suc (length s) - p)") auto

declare findall_from.simps [simp del]

definition findall :: "pylib \<Rightarrow> regex \<Rightarrow> pystr \<Rightarrow> (nat \<times> nat \<times> (nat \<times> nat) option) list" where
  "findall L r s = findall_from L r s 0"

text \<open>What \<open>findall\<close> returns for a pattern with one capturing group: the group's text.\<close>

definition group_text :: "pystr \<Rightarrow> (nat \<times> nat \<times> (nat \<times> nat) option) \<Rightarrow> pystr" where
  "group_text s m = (case snd (snd m) of None \<Rightarrow> [] | Some (i, j) \<Rightarrow> take (j - i) (drop i s))"

section \<open>The content analyzer (core/content\_analyzer.py)\<close>

datatype py_exc = RequestException | ValueError | KeyError | OtherException

definition adres_keywords :: "pystr list" where
  "adres_keywords =
     [ascii ''adres'', ascii ''administradora'', ascii ''recursos'', ascii ''seguridad social'',
      ascii ''salud'', ascii ''resoluci'' @ [243] @ ascii ''n'', ascii ''concepto'',
      ascii ''normograma'', ascii ''eps'', ascii ''ips'', ascii ''prestadores'',
      ascii ''afiliados'', ascii ''cobertura'', ascii ''pago'', ascii ''reclamaciones'',
      ascii ''tutela'', ascii ''derecho'', ascii ''fundamental'']"

definition legal_keywords :: "pystr list" where
  "legal_keywords =
     [ascii ''decreto'', ascii ''ley'', ascii ''resoluci'' @ [243] @ ascii ''n'',
      ascii ''circular'', ascii ''concepto'', ascii ''jurisprudencia'', ascii ''normativa'',
      ascii ''reglamento'', ascii ''disposici'' @ [243] @ ascii ''n'',
      ascii ''art'' @ [237] @ ascii ''culo'', ascii ''par'' @ [225] @ ascii ''grafo'',
      ascii ''inciso'', ascii ''literal'']"

text \<open>
  The dictionaries of the analysis are association lists in insertion order, as Python
  dictionaries are; \<open>d[k] = v\<close> is \<open>AList.update k v d\<close> and \<open>len(d)\<close> is the length.
  \<open>densidad_keywords\<close> is optional because the analysis of an empty text has no such
  key. The keys \<open>estadisticas_basicas\<close>, \<open>estructura_documento\<close> and
  \<open>metadata_extraccion\<close> of the analysis are left out: the classification reads none
  of them.
\<close>

record adres_findings =
  palabras_encontradas :: "(pystr \<times> nat) list"
  total_coincidencias :: nat
  densidad_keywords :: "rat option"

record legal_findings =
  terminos_legales :: "(pystr \<times> nat) list"
  normas_identificadas :: "(string \<times> pystr set) list"

record criterios =
  densidad_adres :: rat
  criterio_terminos_legales :: nat
  tiene_normas :: bool

record classification =
  tipo_documento :: string
  confianza :: rat
  es_documento_adres :: bool
  es_documento_legal :: "bool option"
  criterios_clasificacion :: "criterios option"

record analysis =
  palabras_clave_adres :: adres_findings
  palabras_clave_legales :: legal_findings
  clasificacion :: classification

text \<open>\<open>r'\b' + re.escape(keyword.lower()) + r'\b'\<close>\<close>

definition word_pattern :: "pylib \<Rightarrow> pystr \<Rightarrow> regex" where
  "word_pattern L keyword = Seq Boundary (lits (str_lower L keyword) Boundary)"

definition count_keyword :: "pylib \<Rightarrow> pystr \<Rightarrow> pystr \<Rightarrow> nat" where
  "count_keyword L keyword text_lower = length (findall L (word_pattern L keyword) text_lower)"

text \<open>The loop over the keywords of \<open>_find_adres_keywords\<close>, on (found\_keywords, total\_matches).\<close>

fun adres_loop :: "pylib \<Rightarrow> pystr \<Rightarrow> pystr list \<Rightarrow> (pystr \<times> nat) list \<times> nat \<Rightarrow> (pystr \<times> nat) list \<times> nat" where
  "adres_loop L text_lower [] acc = acc"
| "adres_loop L text_lower (keyword # ks) (found_keywords, total_matches) =
     (let count = count_keyword L keyword text_lower in
      if count > 0
      then adres_loop L text_lower ks (AList.update keyword count found_keywords, total_matches + count)
      else adres_loop L text_lower ks (found_keywords, total_matches))"

definition find_adres_keywords :: "pylib \<Rightarrow> pystr \<Rightarrow> adres_findings" where
  "find_adres_keywords L text =
     (let text_lower = str_lower L text;
          (found_keywords, total_matches) = adres_loop L text_lower adres_keywords ([], 0)
      in \<lparr> palabras_encontradas = found_keywords,
           total_coincidencias = total_matches,
           densidad_keywords =
             Some (if split_ws L text \<noteq> []
                   then (of_nat total_matches / of_nat (length (split_ws L text))) * 100
                   else 0) \<rparr>)"

fun legal_loop :: "pylib \<Rightarrow> pystr \<Rightarrow> pystr list \<Rightarrow> (pystr \<times> nat) list \<Rightarrow> (pystr \<times> nat) list" where
  "legal_loop L text_lower [] found_keywords = found_keywords"
| "legal_loop L text_lower (keyword # ks) found_keywords =
     (let count = count_keyword L keyword text_lower in
      if count > 0
      then legal_loop L text_lower ks (AList.update keyword count found_keywords)
      else legal_loop L text_lower ks found_keywords)"

text \<open>\<open>keyword\s+(?:n\<close>U+00FA\<open>mero\s+)?(\d+)\<close>\<close>

definition norm_pattern :: "pystr \<Rightarrow> regex" where
  "norm_pattern keyword =
     lits keyword (Seq (Plus Space_class)
       (Seq (Opt (lits (ascii ''n'' @ [250] @ ascii ''mero'') (Plus Space_class)))
            (Group (Plus Digit_class))))"

definition norm_patterns :: "(string \<times> regex) list" where
  "norm_patterns =
     [(''resoluciones'', norm_pattern (ascii ''resoluci'' @ [243] @ ascii ''n'')),
      (''decretos'', norm_pattern (ascii ''decreto'')),
      (''leyes'', norm_pattern (ascii ''ley'')),
      (''articulos'', norm_pattern (ascii ''art'' @ [237] @ ascii ''culo''))]"

fun norms_loop :: "pylib \<Rightarrow> pystr \<Rightarrow> (string \<times> regex) list \<Rightarrow> (string \<times> pystr set) list \<Rightarrow> (string \<times> pystr set) list" where
  "norms_loop L text_lower [] found_norms = found_norms"
| "norms_loop L text_lower ((norm_type, pattern) # ps) found_norms =
     (let matches = map (group_text text_lower) (findall L pattern text_lower) in
      if matches \<noteq> []
      then norms_loop L text_lower ps (AList.update norm_type (set matches) found_norms)
      else norms_loop L text_lower ps found_norms)"

definition find_legal_keywords :: "pylib \<Rightarrow> pystr \<Rightarrow> legal_findings" where
  "find_legal_keywords L text =
     (let text_lower = str_lower L text
      in \<lparr> terminos_legales = legal_loop L text_lower legal_keywords [],
           normas_identificadas = norms_loop L text_lower norm_patterns [] \<rparr>)"

text \<open>
  \<open>_classify_document\<close> reads three values of the analysis built so far; reading
  \<open>densidad_keywords\<close> from a dictionary without that key is a \<open>KeyError\<close>.
\<close>

definition classify_document :: "adres_findings \<Rightarrow> legal_findings \<Rightarrow> py_exc + classification" where
  "classify_document adres legal =
     (case densidad_keywords adres of
        None \<Rightarrow> Inl KeyError
      | Some adres_density \<Rightarrow>
          (let legal_terms = length (terminos_legales legal);
               has_norms = (normas_identificadas legal \<noteq> []);
               (document_type, confidence) =
                 (if adres_density > 2 \<and> legal_terms > 3 then (''documento_normativo_adres'', 9 / 10)
                  else if adres_density > 1 then (''documento_adres'', 7 / 10)
                  else if legal_terms > 2 \<or> has_norms then (''documento_legal'', 6 / 10)
                  else (''documento_general'', 5 / 10))
           in Inr \<lparr> tipo_documento = document_type,
                    confianza = confidence,
                    es_documento_adres = (adres_density > 1 / 2),
                    es_documento_legal = Some (legal_terms > 1 \<or> has_norms),
                    criterios_clasificacion =
                      Some \<lparr> densidad_adres = adres_density,
                             criterio_terminos_legales = legal_terms,
                             tiene_normas = has_norms \<rparr> \<rparr>))"

definition create_empty_analysis :: analysis where
  "create_empty_analysis =
     \<lparr> palabras_clave_adres =
         \<lparr> palabras_encontradas = [], total_coincidencias = 0, densidad_keywords = None \<rparr>,
       palabras_clave_legales = \<lparr> terminos_legales = [], normas_identificadas = [] \<rparr>,
       clasificacion =
         \<lparr> tipo_documento = ''documento_vacio'', confianza = 0, es_documento_adres = False,
           es_documento_legal = None, criterios_clasificacion = None \<rparr> \<rparr>"

text \<open>\<open>analyze_content\<close>; \<open>not text or not text.strip()\<close> is the guard of the empty analysis.\<close>

definition analyze_content :: "pylib \<Rightarrow> pystr \<Rightarrow> py_exc + analysis" where
  "analyze_content L text =
     (if text = [] \<or> strip L text = [] then Inr create_empty_analysis
      else
        (let adres = find_adres_keywords L text;
             legal = find_legal_keywords L text
         in case classify_document adres legal of
              Inl e \<Rightarrow> Inl e
            | Inr c \<Rightarrow> Inr \<lparr> palabras_clave_adres = adres,
                             palabras_clave_legales = legal,
                             clasificacion = c \<rparr>))"

section \<open>Parsed documents\<close>

text \<open>
  What \<open>BeautifulSoup(response.text, 'lxml')\<close> builds: a tree of elements and text
  strings. The parser is not part of the repository; a response carries the tree it
  parses to. An attribute value is a string, or a list of strings for a multi-valued
  attribute such as \<open>class\<close>. Only the strings that \<open>get_text\<close> collects are
  kept; comments and the like are not in the tree.
\<close>

datatype attr_value = Single pystr | Multi "pystr list"

datatype node = Text pystr | Element pystr "(pystr \<times> attr_value) list" "node list"

type_synonym soup = "node list"

fun join :: "pystr \<Rightarrow> pystr list \<Rightarrow> pystr" where
  "join sep [] = []"
| "join sep [x] = x"
| "join sep (x # y # ys) = x @ sep @ join sep (y # ys)"

text \<open>How \<open>find\<close> compares an attribute of an element with the string asked for.\<close>

fun attr_matches :: "attr_value option \<Rightarrow> pystr \<Rightarrow> bool" where
  "attr_matches None wanted = False"
| "attr_matches (Some (Single v)) wanted = (v = wanted)"
| "attr_matches (Some (Multi vs)) wanted = (wanted \<in> set vs \<or> join (ascii '' '') vs = wanted)"

datatype selector = Selector pystr "(pystr \<times> pystr) option"

fun matches_selector :: "selector \<Rightarrow> node \<Rightarrow> bool" where
  "matches_selector sel (Text t) = False"
| "matches_selector (Selector tag None) (Element name attrs children) = (name = tag)"
| "matches_selector (Selector tag (Some (key, wanted))) (Element name attrs children) =
     (name = tag \<and> attr_matches (map_of attrs key) wanted)"

text \<open>\<open>find\<close>: the first matching element among the descendants, in document order.\<close>

fun find_first :: "(node \<Rightarrow> bool) \<Rightarrow> node list \<Rightarrow> node option" where
  "find_first P [] = None"
| "find_first P (Text t # ns) = find_first P ns"
| "find_first P (Element name attrs children # ns) =
     (if P (Element name attrs children) then Some (Element name attrs children)
      else case find_first P children of
             Some e \<Rightarrow> Some e
           | None \<Rightarrow> find_first P ns)"

fun all_strings :: "node \<Rightarrow> pystr list" where
  "all_strings (Text t) = [t]"
| "all_strings (Element name attrs children) = concat (map all_strings children)"

text \<open>\<open>get_text(separator, strip=True)\<close>: the stripped strings that are not empty, joined.\<close>

definition get_text :: "pylib \<Rightarrow> pystr \<Rightarrow> node \<Rightarrow> pystr" where
  "get_text L separator n = join separator (filter (\<lambda>t. t \<noteq> []) (map (strip L) (all_strings n)))"

section \<open>The scraper (core/scraper.py)\<close>

record config =
  delay_between_requests :: rat
  max_retries :: int
  allowed_domains :: "pystr list"
  max_content_size :: int
  default_document_url :: pystr

definition default_config :: config where
  "default_config =
     \<lparr> delay_between_requests = 3,
       max_retries = 3,
       allowed_domains = [ascii ''normograma.adres.gov.co'', ascii ''adres.gov.co''],
       max_content_size = 10 * 1024 * 1024,
       default_document_url =
         ascii ''https://normograma.adres.gov.co/compilacion/docs/concepto_adres_20241209688471_2024.html'' \<rparr>"

subsection \<open>The container resolver\<close>

definition selectors :: "selector list" where
  "selectors =
     [Selector (ascii ''main'') None,
      Selector (ascii ''article'') None,
      Selector (ascii ''div'') (Some (ascii ''id'', ascii ''content'')),
      Selector (ascii ''div'') (Some (ascii ''class'', ascii ''content'')),
      Selector (ascii ''div'') (Some (ascii ''class'', ascii ''main-content'')),
      Selector (ascii ''div'') (Some (ascii ''class'', ascii ''document-content'')),
      Selector (ascii ''div'') (Some (ascii ''class'', ascii ''texto-concepto'')),
      Selector (ascii ''div'') (Some (ascii ''class'', ascii ''contenido-normograma'')),
      Selector (ascii ''section'') None,
      Selector (ascii ''div'') (Some (ascii ''id'', ascii ''container'')),
      Selector (ascii ''div'') (Some (ascii ''class'', ascii ''container''))]"

text \<open>
  The loop of \<open>_find_main_container\<close>. An element is always true in a condition, so
  \<open>container and container.get_text(strip=True)\<close> asks for an element whose
  stripped text is not empty.
\<close>

fun selector_loop :: "pylib \<Rightarrow> soup \<Rightarrow> selector list \<Rightarrow> node option" where
  "selector_loop L soup [] = find_first (matches_selector (Selector (ascii ''body'') None)) soup"
| "selector_loop L soup (sel # sels) =
     (case find_first (matches_selector sel) soup of
        None \<Rightarrow> selector_loop L soup sels
      | Some container \<Rightarrow>
          if get_text L [] container \<noteq> [] then Some container
          else selector_loop L soup sels)"

definition find_main_container :: "pylib \<Rightarrow> soup \<Rightarrow> node option" where
  "find_main_container L soup = selector_loop L soup selectors"

subsection \<open>The text extractor\<close>

definition unwanted_elements :: "pystr list" where
  "unwanted_elements =
     [ascii ''script'', ascii ''style'', ascii ''nav'', ascii ''header'', ascii ''footer'',
      ascii ''aside'', ascii ''noscript'']"

text \<open>The container after \<open>decompose()\<close> on every descendant of an unwanted kind.\<close>

fun decompose_unwanted :: "node list \<Rightarrow> node list" where
  "decompose_unwanted [] = []"
| "decompose_unwanted (Text t # ns) = Text t # decompose_unwanted ns"
| "decompose_unwanted (Element name attrs children # ns) =
     (if name \<in> set unwanted_elements then decompose_unwanted ns
      else Element name attrs (decompose_unwanted children) # decompose_unwanted ns)"

text \<open>\<open>str.split(sep)\<close> for a separator of one character.\<close>

fun split_on :: "cp \<Rightarrow> pystr \<Rightarrow> pystr \<Rightarrow> pystr list" where
  "split_on sep w [] = [rev w]"
| "split_on sep w (c # cs) = (if c = sep then rev w # split_on sep [] cs else split_on sep (c # w) cs)"

definition extract_clean_text :: "pylib \<Rightarrow> node \<Rightarrow> pystr" where
  "extract_clean_text L container =
     (let cleaned = (case container of
                       Text t \<Rightarrow> Text t
                     | Element name attrs children \<Rightarrow> Element name attrs (decompose_unwanted children));
          text = get_text L [10] cleaned;
          lines = filter (\<lambda>line. line \<noteq> []) (map (strip L) (split_on 10 [] text))
      in join [10] lines)"

subsection \<open>Requests, waits and the record of what was done\<close>

text \<open>
  A response as the scraper reads it: the status code, \<open>len(response.content)\<close>, two
  headers, and what the parser makes of the body (it may raise).
\<close>

datatype parse_outcome = Parsed soup | Parse_raises py_exc

record response =
  status_code :: nat
  content_length :: nat
  content_type :: pystr
  server :: pystr
  parse :: parse_outcome

text \<open>
  \<open>session.get\<close> returns a response or raises. The network is a function from the
  URL and the number of requests made before to what this request meets.
\<close>

datatype get_outcome = Raises py_exc | Returns response

type_synonym network = "pystr \<Rightarrow> nat \<Rightarrow> get_outcome"

text \<open>
  The effects of a run, in order: the three waits (each \<open>time.sleep\<close> of the code
  follows a log line of its own), the requests, and the line
  \<open>Procesando i/total\<close> that opens each document of a batch.
\<close>

datatype event =
    Ethical_wait rat
  | Backoff_wait rat
  | Document_wait rat
  | Http_get pystr
  | Processing nat nat pystr

type_synonym trace = "event list"

fun is_get :: "event \<Rightarrow> bool" where
  "is_get (Http_get u) = True"
| "is_get e = False"

definition requests_made :: "trace \<Rightarrow> nat" where
  "requests_made tr = length (filter is_get tr)"

text \<open>\<open>time.sleep\<close> raises \<open>ValueError\<close> on a negative length.\<close>

definition sleep :: "(rat \<Rightarrow> event) \<Rightarrow> rat \<Rightarrow> trace \<Rightarrow> py_exc + trace" where
  "sleep kind seconds tr = (if seconds < 0 then Inl ValueError else Inr (tr @ [kind seconds]))"

text \<open>
  \<open>raise_for_status\<close> raises \<open>HTTPError\<close>, a \<open>RequestException\<close>, on a status from
  400 to 599; \<open>bool(response)\<close> is false on the same statuses.
\<close>

definition response_ok :: "response \<Rightarrow> bool" where
  "response_ok r = (\<not> (400 \<le> status_code r \<and> status_code r < 600))"

text \<open>
  \<open>_make_request\<close>: \<open>None\<close> when the request raised a \<open>RequestException\<close> or a
  \<open>ValueError\<close> (the one it raises itself on a body above the maximum size); any
  other exception leaves the function.
\<close>

definition make_request :: "config \<Rightarrow> network \<Rightarrow> pystr \<Rightarrow> trace \<Rightarrow> (py_exc + response option) \<times> trace" where
  "make_request C net url tr =
     (let tr' = tr @ [Http_get url] in
      case net url (requests_made tr) of
        Raises e \<Rightarrow>
          if e = RequestException \<or> e = ValueError then (Inr None, tr') else (Inl e, tr')
      | Returns r \<Rightarrow>
          if \<not> response_ok r then (Inr None, tr')
          else if int (content_length r) > max_content_size C then (Inr None, tr')
          else (Inr (Some r), tr'))"

subsection \<open>Scrape records\<close>

text \<open>
  The result dictionaries. The error message is kept as a value: the texts of the code
  are, in the order of the constructors, \<open>URL no v\<close>U+00E1\<open>lida o dominio no permitido\<close>,
  \<open>Fall\<close>U+00F3\<open> despu\<close>U+00E9\<open>s de n intentos: e\<close>, \<open>Error desconocido\<close>,
  \<open>No se pudo encontrar el contenedor principal de contenido\<close> and
  \<open>Error en procesamiento: e\<close>. The time stamps of the dictionaries are left out.
\<close>

datatype message =
    Invalid_url
  | Failed_after int py_exc
  | Unknown_error
  | No_container
  | Processing_failed py_exc

record metadatos_http =
  meta_status_code :: nat
  meta_content_type :: pystr
  meta_server :: pystr
  meta_content_length :: nat

record ok_record =
  url_original :: pystr
  texto_completo :: pystr
  longitud_caracteres :: nat
  longitud_palabras :: nat
  intentos_realizados :: nat
  analisis_contenido :: analysis
  metadatos :: metadatos_http

record error_record =
  error_url :: pystr
  error_type :: string
  error_message :: message

datatype scrape_record = OK ok_record | ERROR error_record

fun status :: "scrape_record \<Rightarrow> string" where
  "status (OK r) = ''OK''"
| "status (ERROR r) = ''ERROR''"

definition create_error_response :: "pystr \<Rightarrow> message \<Rightarrow> string \<Rightarrow> scrape_record" where
  "create_error_response url msg etype =
     ERROR \<lparr> error_url = url, error_type = etype, error_message = msg \<rparr>"

definition validate_url :: "config \<Rightarrow> pylib \<Rightarrow> pystr \<Rightarrow> bool" where
  "validate_url C L url =
     (case urlparse_netloc L url of
        None \<Rightarrow> False
      | Some netloc \<Rightarrow> list_ex (\<lambda>domain. contains domain netloc) (allowed_domains C))"

text \<open>\<open>_process_response\<close>; every exception raised inside is turned into a record.\<close>

definition process_response :: "pylib \<Rightarrow> response \<Rightarrow> pystr \<Rightarrow> nat \<Rightarrow> scrape_record" where
  "process_response L resp url attempts =
     (case parse resp of
        Parse_raises e \<Rightarrow> create_error_response url (Processing_failed e) ''processing_error''
      | Parsed soup \<Rightarrow>
          (case find_main_container L soup of
             None \<Rightarrow> create_error_response url No_container ''parsing_error''
           | Some main_container \<Rightarrow>
               (let extracted_text = extract_clean_text L main_container in
                case analyze_content L extracted_text of
                  Inl e \<Rightarrow> create_error_response url (Processing_failed e) ''processing_error''
                | Inr an \<Rightarrow>
                    OK \<lparr> url_original = url,
                         texto_completo = extracted_text,
                         longitud_caracteres = length extracted_text,
                         longitud_palabras = length (split_ws L extracted_text),
                         intentos_realizados = attempts,
                         analisis_contenido = an,
                         metadatos =
                           \<lparr> meta_status_code = status_code resp,
                             meta_content_type = content_type resp,
                             meta_server = server resp,
                             meta_content_length = content_length resp \<rparr> \<rparr>)))"

subsection \<open>One document\<close>

text \<open>
  The loop \<open>for attempt in range(max_retries + 1)\<close> of \<open>scrape_document\<close>, on the
  attempts still to make. The wait and the request are inside the \<open>try\<close>: an exception
  of either ends the scrape on the last attempt only. After the loop comes the record
  \<open>unknown_error\<close>.
\<close>

fun attempts_loop :: "config \<Rightarrow> pylib \<Rightarrow> network \<Rightarrow> pystr \<Rightarrow> nat list \<Rightarrow> trace \<Rightarrow> scrape_record \<times> trace" where
  "attempts_loop C L net url [] tr = (create_error_response url Unknown_error ''unknown_error'', tr)"
| "attempts_loop C L net url (attempt # rest) tr =
     (let on_exception = (\<lambda>e tr'.
            if int attempt = max_retries C
            then (create_error_response url (Failed_after (max_retries C + 1) e) ''extraction_error'', tr')
            else attempts_loop C L net url rest tr')
      in case (if attempt > 0
               then sleep Backoff_wait (delay_between_requests C * 2 ^ attempt) tr
               else sleep Ethical_wait (delay_between_requests C) tr) of
           Inl e \<Rightarrow> on_exception e tr
         | Inr tr1 \<Rightarrow>
             (case make_request C net url tr1 of
                (Inl e, tr2) \<Rightarrow> on_exception e tr2
              | (Inr None, tr2) \<Rightarrow> attempts_loop C L net url rest tr2
              | (Inr (Some resp), tr2) \<Rightarrow>
                  if response_ok resp then (process_response L resp url (attempt + 1), tr2)
                  else attempts_loop C L net url rest tr2))"

text \<open>\<open>url or self.config.urls.default_document_url\<close>: the default for \<open>None\<close> and for the empty string.\<close>

definition target_url :: "config \<Rightarrow> pystr option \<Rightarrow> pystr" where
  "target_url C url =
     (case url of
        None \<Rightarrow> default_document_url C
      | Some u \<Rightarrow> if u = [] then default_document_url C else u)"

definition scrape_document :: "config \<Rightarrow> pylib \<Rightarrow> network \<Rightarrow> pystr option \<Rightarrow> trace \<Rightarrow> scrape_record \<times> trace" where
  "scrape_document C L net url tr =
     (if \<not> validate_url C L (target_url C url)
      then (create_error_response (target_url C url) Invalid_url ''validation_error'', tr)
      else attempts_loop C L net (target_url C url) [0 ..< nat (max_retries C + 1)] tr)"

subsection \<open>A batch of documents\<close>



section \<open>A library instance for Latin-1 texts\<close>

text \<open>
  A concrete library on which the definitions can be evaluated. On the code points
  below 256 the tables are those of CPython 3 (lower case, \<open>str.isspace\<close>, the word
  characters of \<open>re\<close>, the decimal digits); the white space above is listed too, other
  code points above 255 are taken as caseless symbols. \<open>basic_netloc\<close> follows
  \<open>urllib.parse.urlsplit\<close> on a URL that needs no cleaning: an optional scheme up to
  the first colon, then the text between \<open>//\<close> and the next \<open>/\<close>, \<open>?\<close> or \<open>#\<close>.
\<close>

definition latin1_lower :: "cp \<Rightarrow> cp" where
  "latin1_lower c =
     (if (65 \<le> c \<and> c \<le> 90) \<or> (192 \<le> c \<and> c \<le> 222 \<and> c \<noteq> 215) then c + 32 else c)"

definition py_isspace :: "cp \<Rightarrow> bool" where
  "py_isspace c =
     ((9 \<le> c \<and> c \<le> 13) \<or> (28 \<le> c \<and> c \<le> 32) \<or> c = 133 \<or> c = 160 \<or> c = 5760
      \<or> (8192 \<le> c \<and> c \<le> 8202) \<or> c = 8232 \<or> c = 8233 \<or> c = 8239 \<or> c = 8287 \<or> c = 12288)"

definition latin1_isword :: "cp \<Rightarrow> bool" where
  "latin1_isword c =
     ((48 \<le> c \<and> c \<le> 57) \<or> (65 \<le> c \<and> c \<le> 90) \<or> c = 95 \<or> (97 \<le> c \<and> c \<le> 122)
      \<or> c = 170 \<or> c = 178 \<or> c = 179 \<or> c = 181 \<or> c = 185 \<or> c = 186
      \<or> (188 \<le> c \<and> c \<le> 190) \<or> (192 \<le> c \<and> c \<le> 255 \<and> c \<noteq> 215 \<and> c \<noteq> 247))"

definition ascii_isdecimal :: "cp \<Rightarrow> bool" where
  "ascii_isdecimal c = (48 \<le> c \<and> c \<le> 57)"

definition scheme_char :: "cp \<Rightarrow> bool" where
  "scheme_char c =
     ((48 \<le> c \<and> c \<le> 57) \<or> (65 \<le> c \<and> c \<le> 90) \<or> (97 \<le> c \<and> c \<le> 122)
      \<or> c = 43 \<or> c = 45 \<or> c = 46)"

definition basic_netloc :: "pystr \<Rightarrow> pystr option" where
  "basic_netloc url =
     (let head = takeWhile (\<lambda>c. c \<noteq> 58) url;
          rest = (if head \<noteq> [] \<and> length head < length url
                     \<and> ((65 \<le> hd url \<and> hd url \<le> 90) \<or> (97 \<le> hd url \<and> hd url \<le> 122))
                     \<and> list_all scheme_char head
                  then drop (Suc (length head)) url else url)
      in if take 2 rest = [47, 47]
         then Some (takeWhile (\<lambda>c. c \<noteq> 47 \<and> c \<noteq> 63 \<and> c \<noteq> 35) (drop 2 rest))
         else Some [])"

definition latin1 :: pylib where
  "latin1 =
     \<lparr> str_lower = map latin1_lower,
       isspace = py_isspace,
       isword = latin1_isword,
       isdecimal = ascii_isdecimal,
       urlparse_netloc = basic_netloc \<rparr>"

section \<open>Auxiliary definitions for the proofs\<close>



text \<open>
  A count of the matches of \<open>\bk\b\<close> in one pass over the text, carrying whether the
  previous character is a word character. It is proved equal to \<open>count_keyword\<close> below
  and serves to evaluate examples.
\<close>

fun scan :: "pylib \<Rightarrow> pystr \<Rightarrow> bool \<Rightarrow> pystr \<Rightarrow> nat" where
  "scan L k pw [] = 0"
| "scan L k pw (c # cs) =
     (if pw = isword L c then scan L k (isword L c) cs
      else if take (length k) (c # cs) \<noteq> k then scan L k (isword L c) cs
      else if isword L (last k) = (case drop (length k) (c # cs) of [] \<Rightarrow> False | d # _ \<Rightarrow> isword L d)
      then scan L k (isword L c) cs
      else Suc (scan L k (isword L (last k)) (drop (length k - 1) cs)))"


text \<open>A text of forty words with one ADRES keyword and four legal terms.\<close>

definition example_text :: pystr where
  "example_text = ascii ''eps decreto ley circular inciso a a a a a a a a a a a a a a a a a a a a a a a a a a a a a a a a a a a''"


text \<open>The error type of a record, when it is an error record.\<close>

fun record_error_type :: "scrape_record \<Rightarrow> string option" where
  "record_error_type (OK r) = None"
| "record_error_type (ERROR r) = Some (error_type r)"

text \<open>
  A request fails when \<open>session.get\<close> raises, when the status is an error status, or
  when the body is above the maximum size; it fails quietly when \<open>_make_request\<close>
  returns \<open>None\<close> for it.
\<close>

definition request_succeeds :: "config \<Rightarrow> get_outcome \<Rightarrow> bool" where
  "request_succeeds C out =
     (case out of
        Raises e \<Rightarrow> False
      | Returns r \<Rightarrow> response_ok r \<and> int (content_length r) \<le> max_content_size C)"

definition fails_quietly :: "config \<Rightarrow> get_outcome \<Rightarrow> bool" where
  "fails_quietly C out =
     (case out of
        Raises e \<Rightarrow> e = RequestException \<or> e = ValueError
      | Returns r \<Rightarrow> \<not> response_ok r \<or> int (content_length r) > max_content_size C)"

definition oversized :: "config \<Rightarrow> get_outcome \<Rightarrow> bool" where
  "oversized C out =
     (case out of
        Raises e \<Rightarrow> False
      | Returns r \<Rightarrow> response_ok r \<and> int (content_length r) > max_content_size C)"

text \<open>The wait that precedes the request of an attempt.\<close>

definition attempt_wait :: "config \<Rightarrow> nat \<Rightarrow> event" where
  "attempt_wait C attempt =
     (if attempt > 0 then Backoff_wait (delay_between_requests C * 2 ^ attempt)
      else Ethical_wait (delay_between_requests C))"




text \<open>
  The container resolver as the claim C6 words it: the first rule, in order, for which
  some element both matches the rule and has non-empty stripped text gives that
  element (the first such in document order); the body when there is none.
\<close>

fun claimed_loop :: "pylib \<Rightarrow> soup \<Rightarrow> selector list \<Rightarrow> node option" where
  "claimed_loop L soup [] = find_first (matches_selector (Selector (ascii ''body'') None)) soup"
| "claimed_loop L soup (sel # sels) =
     (case find_first (\<lambda>e. matches_selector sel e \<and> get_text L [] e \<noteq> []) soup of
        None \<Rightarrow> claimed_loop L soup sels
      | Some container \<Rightarrow> Some container)"

definition claimed_container :: "pylib \<Rightarrow> soup \<Rightarrow> node option" where
  "claimed_container L soup = claimed_loop L soup selectors"

text \<open>A rule wins on a document when its first match has non-empty stripped text.\<close>

definition rule_wins :: "pylib \<Rightarrow> soup \<Rightarrow> selector \<Rightarrow> bool" where
  "rule_wins L soup sel =
     (case find_first (matches_selector sel) soup of
        None \<Rightarrow> False
      | Some container \<Rightarrow> get_text L [] container \<noteq> [])"

text \<open>Example documents, responses and URLs.\<close>

definition main_element :: node where
  "main_element = Element (ascii ''main'') [] [Text (ascii '' Ley 100 '')]"

definition content_div :: node where
  "content_div =
     Element (ascii ''div'') [(ascii ''class'', Multi [ascii ''content''])] [Text (ascii ''La EPS'')]"

definition example_page :: soup where
  "example_page =
     [Element (ascii ''html'') []
        [Element (ascii ''body'') [] [content_div, main_element]]]"

definition two_mains_page :: soup where
  "two_mains_page =
     [Element (ascii ''html'') []
        [Element (ascii ''body'') []
           [Element (ascii ''main'') [] [Text (ascii ''  '')], main_element, content_div]]]"

definition good_response :: response where
  "good_response =
     \<lparr> status_code = 200, content_length = 2048, content_type = ascii ''text/html'',
       server = ascii ''nginx'', parse = Parsed example_page \<rparr>"

definition big_response :: response where
  "big_response = good_response \<lparr> content_length := 10485761 \<rparr>"

definition unavailable_response :: response where
  "unavailable_response = good_response \<lparr> status_code := 503 \<rparr>"

definition empty_response :: response where
  "empty_response = good_response \<lparr> parse := Parsed [] \<rparr>"

definition adres_url :: pystr where
  "adres_url = ascii ''https://normograma.adres.gov.co/docs/r1.htm''"

definition evil_url :: pystr where
  "evil_url = ascii ''https://evil.example.com/docs/r1.htm''"

section \<open>Properties of the library functions and of the matcher\<close>

lemma strip_Nil_iff: "strip L s = [] \<longleftrightarrow> (\<forall>c \<in> set s. isspace L c)"
proof
  assume "strip L s = []"
  then have a: "\<forall>c \<in> set (dropWhile (isspace L) s). isspace L c"
    by (simp add: strip_def)
  have "dropWhile (isspace L) s = []"
  proof (rule ccontr)
    assume n: "dropWhile (isspace L) s \<noteq> []"
    then have "\<not> isspace L (hd (dropWhile (isspace L) s))" by (rule hd_dropWhile)
    moreover have "hd (dropWhile (isspace L) s) \<in> set (dropWhile (isspace L) s)" using n by simp
    ultimately show False using a by blast
  qed
  then show "\<forall>c \<in> set s. isspace L c" by simp
next
  assume "\<forall>c \<in> set s. isspace L c"
  then have d: "dropWhile (isspace L) s = []" by simp
  show "strip L s = []" unfolding strip_def d by simp
qed

lemma update_fresh: "k \<notin> fst ` set al \<Longrightarrow> AList.update k v al = al @ [(k, v)]"
  by (induction al) auto

lemma legal_loop_eq:
  "distinct ks \<Longrightarrow> set ks \<inter> fst ` set acc = {} \<Longrightarrow>
   legal_loop L t ks acc = acc @ map (\<lambda>k. (k, count_keyword L k t)) (filter (\<lambda>k. 0 < count_keyword L k t) ks)"
proof (induction ks arbitrary: acc)
  case Nil
  then show ?case by simp
next
  case (Cons k ks)
  show ?case
  proof (cases "0 < count_keyword L k t")
    case True
    have fresh: "k \<notin> fst ` set acc" using Cons.prems(2) by auto
    have "set ks \<inter> fst ` set (acc @ [(k, count_keyword L k t)]) = {}"
      using Cons.prems by auto
    with Cons.IH[of "acc @ [(k, count_keyword L k t)]"] Cons.prems(1) True fresh
    show ?thesis by (simp add: update_fresh Let_def)
  next
    case False
    have "set ks \<inter> fst ` set acc = {}" using Cons.prems(2) by auto
    with Cons.IH[of acc] Cons.prems(1) False show ?thesis by (simp add: Let_def)
  qed
qed

lemma adres_loop_eq:
  "distinct ks \<Longrightarrow> set ks \<inter> fst ` set acc = {} \<Longrightarrow>
   adres_loop L t ks (acc, n) =
     (acc @ map (\<lambda>k. (k, count_keyword L k t)) (filter (\<lambda>k. 0 < count_keyword L k t) ks),
      n + sum_list (map (\<lambda>k. count_keyword L k t) ks))"
proof (induction ks arbitrary: acc n)
  case Nil
  then show ?case by simp
next
  case (Cons k ks)
  show ?case
  proof (cases "0 < count_keyword L k t")
    case True
    have fresh: "k \<notin> fst ` set acc" using Cons.prems(2) by auto
    have "set ks \<inter> fst ` set (acc @ [(k, count_keyword L k t)]) = {}"
      using Cons.prems by auto
    with Cons.IH[of "acc @ [(k, count_keyword L k t)]" "n + count_keyword L k t"] Cons.prems(1) True fresh
    show ?thesis by (simp add: update_fresh Let_def)
  next
    case False
    have "set ks \<inter> fst ` set acc = {}" using Cons.prems(2) by auto
    with Cons.IH[of acc n] Cons.prems(1) False show ?thesis by (simp add: Let_def)
  qed
qed

lemma update_not_Nil: "AList.update k v al \<noteq> []"
  by (cases al) auto

lemma norms_loop_Nil_iff:
  "norms_loop L t ps acc = [] \<longleftrightarrow> acc = [] \<and> (\<forall>(ty, pat) \<in> set ps. findall L pat t = [])"
proof (induction ps arbitrary: acc)
  case Nil
  then show ?case by simp
next
  case (Cons p ps)
  obtain ty pat where p: "p = (ty, pat)" by (cases p)
  show ?case using Cons.IH by (auto simp: p Let_def update_not_Nil)
qed

lemma distinct_legal_keywords: "distinct legal_keywords"
  by (simp add: legal_keywords_def ascii_def)

lemma distinct_adres_keywords: "distinct adres_keywords"
  by (simp add: adres_keywords_def ascii_def)

lemma take_Suc_drop_eq_Cons:
  "take (Suc n) (drop p s) = c # w \<longleftrightarrow> p < length s \<and> s ! p = c \<and> take n (drop (Suc p) s) = w"
proof (cases "p < length s")
  case True
  then have "drop p s = s ! p # drop (Suc p) s" by (simp add: Cons_nth_drop_Suc)
  then show ?thesis using True by simp
next
  case False
  then show ?thesis by simp
qed

lemma rmatch_lits_Boundary:
  "rmatch L (lits w Boundary) s (p, g) =
     (if take (length w) (drop p s) = w \<and> boundary L s (p + length w) then [(p + length w, g)] else [])"
proof (induction w arbitrary: p)
  case Nil
  show ?case by simp
next
  case (Cons c w)
  show ?case
    by (auto simp add: Cons.IH take_Suc_drop_eq_Cons)
qed







lemma split_acc_Nil_iff: "split_acc L w s = [] \<longleftrightarrow> w = [] \<and> (\<forall>c \<in> set s. isspace L c)"
  by (induction s arbitrary: w) auto

lemma split_ws_Nil_iff: "split_ws L s = [] \<longleftrightarrow> (\<forall>c \<in> set s. isspace L c)"
  by (simp add: split_ws_def split_acc_Nil_iff)

lemma strip_Nil_imp: "text = [] \<Longrightarrow> strip L text = []"
  by (simp add: strip_def)

lemma find_adres_keywords_eq:
  "find_adres_keywords L text =
     \<lparr> palabras_encontradas =
         map (\<lambda>k. (k, count_keyword L k (str_lower L text)))
           (filter (\<lambda>k. 0 < count_keyword L k (str_lower L text)) adres_keywords),
       total_coincidencias = sum_list (map (\<lambda>k. count_keyword L k (str_lower L text)) adres_keywords),
       densidad_keywords =
         Some (if split_ws L text \<noteq> []
               then (of_nat (sum_list (map (\<lambda>k. count_keyword L k (str_lower L text)) adres_keywords))
                     / of_nat (length (split_ws L text))) * 100
               else 0) \<rparr>"
proof -
  have "adres_loop L (str_lower L text) adres_keywords ([], 0) =
     (map (\<lambda>k. (k, count_keyword L k (str_lower L text)))
           (filter (\<lambda>k. 0 < count_keyword L k (str_lower L text)) adres_keywords),
      sum_list (map (\<lambda>k. count_keyword L k (str_lower L text)) adres_keywords))"
    using adres_loop_eq[OF distinct_adres_keywords, of "[]" L "str_lower L text" 0] by simp
  then show ?thesis
    unfolding find_adres_keywords_def Let_def by simp
qed

lemma find_legal_keywords_terms:
  "terminos_legales (find_legal_keywords L text) =
     map (\<lambda>k. (k, count_keyword L k (str_lower L text)))
       (filter (\<lambda>k. 0 < count_keyword L k (str_lower L text)) legal_keywords)"
  using legal_loop_eq[OF distinct_legal_keywords, of "[]" L "str_lower L text"]
  by (simp add: find_legal_keywords_def Let_def)

lemma find_legal_keywords_norms:
  "normas_identificadas (find_legal_keywords L text) \<noteq> [] \<longleftrightarrow>
     (\<exists>(ty, pat) \<in> set norm_patterns. findall L pat (str_lower L text) \<noteq> [])"
  using norms_loop_Nil_iff[of L "str_lower L text" norm_patterns "[]"]
  by (auto simp: find_legal_keywords_def Let_def)

lemma classify_document_cases:
  assumes "densidad_keywords adres = Some d"
  shows "\<exists>c. classify_document adres legal = Inr c
     \<and> (tipo_documento c, confianza c) =
         (if d > 2 \<and> length (terminos_legales legal) > 3 then (''documento_normativo_adres'', 9 / 10)
          else if d > 1 then (''documento_adres'', 7 / 10)
          else if length (terminos_legales legal) > 2 \<or> normas_identificadas legal \<noteq> []
               then (''documento_legal'', 6 / 10)
          else (''documento_general'', 5 / 10))"
  using assms by (simp add: classify_document_def Let_def)

lemma analyze_content_nonempty:
  assumes "strip L text \<noteq> []"
  shows "\<exists>c. classify_document (find_adres_keywords L text) (find_legal_keywords L text) = Inr c
     \<and> analyze_content L text =
         Inr \<lparr> palabras_clave_adres = find_adres_keywords L text,
               palabras_clave_legales = find_legal_keywords L text,
               clasificacion = c \<rparr>
     \<and> (tipo_documento c, confianza c) =
         (let d = (of_nat (sum_list (map (\<lambda>k. count_keyword L k (str_lower L text)) adres_keywords))
                     / of_nat (length (split_ws L text))) * (100::rat);
              n = length (filter (\<lambda>k. 0 < count_keyword L k (str_lower L text)) legal_keywords);
              h = (\<exists>(ty, pat) \<in> set norm_patterns. findall L pat (str_lower L text) \<noteq> [])
          in if d > 2 \<and> n > 3 then (''documento_normativo_adres'', 9 / 10)
             else if d > 1 then (''documento_adres'', 7 / 10)
             else if n > 2 \<or> h then (''documento_legal'', 6 / 10)
             else (''documento_general'', 5 / 10))"
proof -
  have ne: "text \<noteq> []" using assms strip_Nil_imp by blast
  have "\<not> (\<forall>c \<in> set text. isspace L c)" using assms by (simp add: strip_Nil_iff)
  then have words: "split_ws L text \<noteq> []" by (simp add: split_ws_Nil_iff)
  let ?d = "(of_nat (sum_list (map (\<lambda>k. count_keyword L k (str_lower L text)) adres_keywords))
                     / of_nat (length (split_ws L text))) * (100::rat)"
  have dens: "densidad_keywords (find_adres_keywords L text) = Some ?d"
    using words by (simp add: find_adres_keywords_eq)
  from classify_document_cases[OF dens, of "find_legal_keywords L text"]
  obtain c where c: "classify_document (find_adres_keywords L text) (find_legal_keywords L text) = Inr c"
    and tc: "(tipo_documento c, confianza c) =
         (if ?d > 2 \<and> length (terminos_legales (find_legal_keywords L text)) > 3 then (''documento_normativo_adres'', 9 / 10)
          else if ?d > 1 then (''documento_adres'', 7 / 10)
          else if length (terminos_legales (find_legal_keywords L text)) > 2 \<or> normas_identificadas (find_legal_keywords L text) \<noteq> []
               then (''documento_legal'', 6 / 10)
          else (''documento_general'', 5 / 10))" by blast
  have an: "analyze_content L text =
         Inr \<lparr> palabras_clave_adres = find_adres_keywords L text,
               palabras_clave_legales = find_legal_keywords L text,
               clasificacion = c \<rparr>"
    using ne assms c by (simp add: analyze_content_def Let_def)
  have tc': "(tipo_documento c, confianza c) =
         (let d = ?d;
              n = length (filter (\<lambda>k. 0 < count_keyword L k (str_lower L text)) legal_keywords);
              h = (\<exists>(ty, pat) \<in> set norm_patterns. findall L pat (str_lower L text) \<noteq> [])
          in if d > 2 \<and> n > 3 then (''documento_normativo_adres'', 9 / 10)
             else if d > 1 then (''documento_adres'', 7 / 10)
             else if n > 2 \<or> h then (''documento_legal'', 6 / 10)
             else (''documento_general'', 5 / 10))"
    using tc unfolding find_legal_keywords_terms find_legal_keywords_norms length_map Let_def .
  show ?thesis
    by (rule exI[of _ c]) (intro conjI c an tc')
qed

lemma word_at_drop: "word_at L s q = (case drop q s of [] \<Rightarrow> False | d # _ \<Rightarrow> isword L d)"
proof (cases "q < length s")
  case True
  then have "drop q s = s ! q # drop (Suc q) s" by (simp add: Cons_nth_drop_Suc)
  then show ?thesis using True by (simp add: word_at_def)
next
  case False
  then show ?thesis by (simp add: word_at_def)
qed

lemma take_drop_last:
  assumes "take (length k) (drop p s) = k" "k \<noteq> []"
  shows "p + length k \<le> length s \<and> s ! (p + length k - 1) = last k"
proof -
  have "length (take (length k) (drop p s)) = length k" using assms(1) by simp
  then have len: "length k \<le> length s - p" by simp
  have pos: "0 < length k" using assms(2) by simp
  have le: "p + length k \<le> length s" using len pos by arith
  have ple: "p \<le> length s" using le by arith
  have idx: "p + length k - 1 = p + (length k - 1)" using pos by arith
  have lk: "length k - 1 < length k" using pos by arith
  have "last k = k ! (length k - 1)" using assms(2) by (simp add: last_conv_nth)
  also have "\<dots> = take (length k) (drop p s) ! (length k - 1)" using assms(1) by simp
  also have "\<dots> = drop p s ! (length k - 1)" using lk by simp
  also have "\<dots> = s ! (p + (length k - 1))" using ple by (rule nth_drop)
  finally have "s ! (p + length k - 1) = last k" unfolding idx by simp
  with le show ?thesis by simp
qed

lemma scan_unfold:
  "xs \<noteq> [] \<Longrightarrow> scan L k pw xs =
     (if pw \<noteq> isword L (hd xs) \<and> take (length k) xs = k
         \<and> (isword L (last k) \<noteq> (case drop (length k) xs of [] \<Rightarrow> False | d # _ \<Rightarrow> isword L d))
      then Suc (scan L k (isword L (last k)) (drop (length k - 1) (tl xs)))
      else scan L k (isword L (hd xs)) (tl xs))"
  by (cases xs) simp_all

lemma findall_word_step:
  "findall_from L (Seq Boundary (lits k Boundary)) s p =
     (if length s < p then []
      else if boundary L s p \<and> take (length k) (drop p s) = k \<and> boundary L s (p + length k)
           then (p, p + length k, None) # findall_from L (Seq Boundary (lits k Boundary)) s (if 0 < length k then p + length k else Suc p)
           else findall_from L (Seq Boundary (lits k Boundary)) s (Suc p))"
  by (subst findall_from.simps) (simp add: rmatch_lits_Boundary)

lemma length_findall_scan:
  assumes "k \<noteq> []"
  shows "p \<le> length s \<Longrightarrow>
     length (findall_from L (Seq Boundary (lits k Boundary)) s p) =
       scan L k (0 < p \<and> word_at L s (p - 1)) (drop p s)"
proof (induction "length s - p" arbitrary: p rule: less_induct)
  case less
  let ?r = "Seq Boundary (lits k Boundary)"
  show ?case
  proof (cases "p = length s")
    case True
    have "take (length k) (drop p s) \<noteq> k" using True assms by simp
    moreover have "findall_from L ?r s (Suc p) = []"
      using True by (subst findall_word_step) simp
    ultimately show ?thesis using True by (subst findall_word_step) simp
  next
    case False
    then have lt: "p < length s" using less.prems by simp
    then have dr: "drop p s = s ! p # drop (Suc p) s" by (simp add: Cons_nth_drop_Suc)
    have b1: "boundary L s p = ((0 < p \<and> word_at L s (p - 1)) \<noteq> isword L (s ! p))"
      using lt by (simp add: boundary_def word_at_def)
    have ih1: "length (findall_from L ?r s (Suc p)) = scan L k (isword L (s ! p)) (drop (Suc p) s)"
      using less.hyps[of "Suc p"] lt by (simp add: word_at_def)
    show ?thesis
    proof (cases "take (length k) (drop p s) = k")
      case tk: True
      from take_drop_last[OF tk assms]
      have le: "p + length k \<le> length s" and la: "s ! (p + length k - 1) = last k" by simp_all
      have pos: "0 < length k" using assms by simp
      have "p + length k - 1 < length s" using le pos by arith
      then have wl: "word_at L s (p + length k - 1) = isword L (last k)"
        using la by (simp add: word_at_def)
      have b2: "boundary L s (p + length k) =
          (isword L (last k) \<noteq> (case drop (length k) (drop p s) of [] \<Rightarrow> False | d # _ \<Rightarrow> isword L d))"
        using pos wl by (simp add: boundary_def word_at_drop[of L s "p + length k"] add.commute)
      have dec: "length s - (p + length k) < length s - p" using lt pos by arith
      have e: "length k - 1 + Suc p = p + length k" using pos by arith
      have dd: "drop (length k - 1) (drop (Suc p) s) = drop (p + length k) s"
        unfolding drop_drop e ..
      have ih2: "length (findall_from L ?r s (p + length k)) =
          scan L k (isword L (last k)) (drop (length k - 1) (drop (Suc p) s))"
        using less.hyps[OF dec le] pos wl unfolding dd by simp
      have lhs: "findall_from L ?r s p =
          (if boundary L s p \<and> boundary L s (p + length k)
           then (p, p + length k, None) # findall_from L ?r s (p + length k)
           else findall_from L ?r s (Suc p))"
        using lt tk pos by (subst findall_word_step) simp
      have rhs: "scan L k (0 < p \<and> word_at L s (p - 1)) (drop p s) =
          (if (0 < p \<and> word_at L s (p - 1)) \<noteq> isword L (s ! p)
              \<and> (isword L (last k) \<noteq> (case drop (length k) (drop p s) of [] \<Rightarrow> False | d # _ \<Rightarrow> isword L d))
           then Suc (scan L k (isword L (last k)) (drop (length k - 1) (drop (Suc p) s)))
           else scan L k (isword L (s ! p)) (drop (Suc p) s))"
        using lt tk by (subst scan_unfold) (simp_all add: hd_drop_conv_nth drop_Suc tl_drop)
      show ?thesis
        unfolding lhs rhs using b1 b2 ih1 ih2 by simp
    next
      case ntk: False
      have lhs: "findall_from L ?r s p = findall_from L ?r s (Suc p)"
        using lt ntk by (subst findall_word_step) simp
      have rhs: "scan L k (0 < p \<and> word_at L s (p - 1)) (drop p s) =
          scan L k (isword L (s ! p)) (drop (Suc p) s)"
        using lt ntk by (subst scan_unfold) (simp_all add: hd_drop_conv_nth drop_Suc tl_drop)
      show ?thesis
        unfolding lhs rhs using ih1 by simp
    qed
  qed
qed

lemma count_keyword_scan:
  "str_lower L k \<noteq> [] \<Longrightarrow> count_keyword L k t = scan L (str_lower L k) False t"
  using length_findall_scan[of "str_lower L k" 0 t L]
  by (simp add: count_keyword_def findall_def word_pattern_def)

lemmas latin1_defs = ascii_def latin1_def latin1_lower_def py_isspace_def latin1_isword_def ascii_isdecimal_def

lemma example_text_lower: "str_lower latin1 example_text = example_text"
  by (simp add: latin1_defs example_text_def)

lemma example_text_adres_total: "sum_list (map (\<lambda>k. count_keyword latin1 k (str_lower latin1 example_text)) adres_keywords) = 1"
  unfolding example_text_lower by (simp add: latin1_defs example_text_def adres_keywords_def count_keyword_scan)

lemma example_text_legal_terms: "length (filter (\<lambda>k. 0 < count_keyword latin1 k (str_lower latin1 example_text)) legal_keywords) = 4"
  unfolding example_text_lower by (simp add: latin1_defs example_text_def legal_keywords_def count_keyword_scan)

section \<open>The claims about the content analyzer\<close>

text \<open>
  Claim C1, as the code has it. For a text with at least one character that is not
  white space the analysis is returned without an exception and its classification
  follows the decision table in priority order, on the density \<open>d\<close> of the ADRES
  keywords (matches per hundred words), the number \<open>n\<close> of distinct legal keywords found
  and whether any norm number was identified (\<open>h\<close>): \<open>d > 2\<close> and \<open>n > 3\<close> give
  \<open>documento_normativo_adres\<close> with confidence 0.9; else \<open>d > 1\<close> gives
  \<open>documento_adres\<close> with 0.7; else \<open>n > 2\<close> or \<open>h\<close> gives \<open>documento_legal\<close>
  with 0.6; else \<open>documento_general\<close> with 0.5. In particular density 2.5 with four
  legal terms gives \<open>documento_normativo_adres\<close> and 0.9.
\<close>

theorem classification_decision_table:
  assumes "strip L text \<noteq> []"
  shows "\<exists>a. analyze_content L text = Inr a
     \<and> (let d = (of_nat (sum_list (map (\<lambda>k. count_keyword L k (str_lower L text)) adres_keywords))
                   / of_nat (length (split_ws L text))) * (100::rat);
             n = length (filter (\<lambda>k. 0 < count_keyword L k (str_lower L text)) legal_keywords);
             h = (\<exists>(ty, pat) \<in> set norm_patterns. findall L pat (str_lower L text) \<noteq> [])
         in densidad_keywords (palabras_clave_adres a) = Some d
          \<and> length (terminos_legales (palabras_clave_legales a)) = n
          \<and> (normas_identificadas (palabras_clave_legales a) \<noteq> []) = h
          \<and> (tipo_documento (clasificacion a), confianza (clasificacion a)) =
               (if d > 2 \<and> n > 3 then (''documento_normativo_adres'', 9 / 10)
                else if d > 1 then (''documento_adres'', 7 / 10)
                else if n > 2 \<or> h then (''documento_legal'', 6 / 10)
                else (''documento_general'', 5 / 10))
          \<and> (d = 5 / 2 \<and> n = 4 \<longrightarrow>
                tipo_documento (clasificacion a) = ''documento_normativo_adres''
                \<and> confianza (clasificacion a) = 9 / 10))"
proof -
  from analyze_content_nonempty[OF assms] obtain c where
    an: "analyze_content L text =
           Inr \<lparr> palabras_clave_adres = find_adres_keywords L text,
                 palabras_clave_legales = find_legal_keywords L text,
                 clasificacion = c \<rparr>"
    and tc: "(tipo_documento c, confianza c) =
         (let d = (of_nat (sum_list (map (\<lambda>k. count_keyword L k (str_lower L text)) adres_keywords))
                     / of_nat (length (split_ws L text))) * (100::rat);
              n = length (filter (\<lambda>k. 0 < count_keyword L k (str_lower L text)) legal_keywords);
              h = (\<exists>(ty, pat) \<in> set norm_patterns. findall L pat (str_lower L text) \<noteq> [])
          in if d > 2 \<and> n > 3 then (''documento_normativo_adres'', 9 / 10)
             else if d > 1 then (''documento_adres'', 7 / 10)
             else if n > 2 \<or> h then (''documento_legal'', 6 / 10)
             else (''documento_general'', 5 / 10))" by blast
  let ?d = "(of_nat (sum_list (map (\<lambda>k. count_keyword L k (str_lower L text)) adres_keywords))
                   / of_nat (length (split_ws L text))) * (100::rat)"
  let ?n = "length (filter (\<lambda>k. 0 < count_keyword L k (str_lower L text)) legal_keywords)"
  let ?a = "\<lparr> palabras_clave_adres = find_adres_keywords L text,
             palabras_clave_legales = find_legal_keywords L text,
             clasificacion = c \<rparr>"
  have "\<not> (\<forall>c \<in> set text. isspace L c)" using assms by (simp add: strip_Nil_iff)
  then have words: "split_ws L text \<noteq> []" by (simp add: split_ws_Nil_iff)
  have dens: "densidad_keywords (find_adres_keywords L text) = Some ?d"
    using words by (simp add: find_adres_keywords_eq)
  have part: "?d = 5 / 2 \<and> ?n = 4 \<longrightarrow>
      tipo_documento c = ''documento_normativo_adres'' \<and> confianza c = 9 / 10"
  proof (intro impI, elim conjE)
    assume d: "?d = 5 / 2" and n: "?n = 4"
    show "tipo_documento c = ''documento_normativo_adres'' \<and> confianza c = 9 / 10"
      using tc unfolding Let_def d n by simp
  qed
  show ?thesis
    unfolding Let_def
  proof (intro exI[of _ "?a"] conjI)
    show "analyze_content L text = Inr ?a" by (rule an)
    show "densidad_keywords (palabras_clave_adres ?a) = Some ?d" using dens by simp
    show "length (terminos_legales (palabras_clave_legales ?a)) = ?n"
      by (simp add: find_legal_keywords_terms)
    show "(normas_identificadas (palabras_clave_legales ?a) \<noteq> []) =
        (\<exists>(ty, pat) \<in> set norm_patterns. findall L pat (str_lower L text) \<noteq> [])"
      using find_legal_keywords_norms[of L "text"] by simp
    show "(tipo_documento (clasificacion ?a), confianza (clasificacion ?a)) =
         (if ?d > 2 \<and> ?n > 3 then (''documento_normativo_adres'', 9 / 10)
          else if ?d > 1 then (''documento_adres'', 7 / 10)
          else if ?n > 2 \<or> (\<exists>(ty, pat) \<in> set norm_patterns. findall L pat (str_lower L text) \<noteq> [])
               then (''documento_legal'', 6 / 10)
          else (''documento_general'', 5 / 10))"
      using tc unfolding Let_def by simp
    show "?d = 5 / 2 \<and> ?n = 4 \<longrightarrow>
        tipo_documento (clasificacion ?a) = ''documento_normativo_adres''
        \<and> confianza (clasificacion ?a) = 9 / 10"
      using part by simp
  qed
qed

text \<open>The table at \<open>example_text\<close>: forty words, density 2.5, four legal terms.\<close>

theorem classification_decision_table_witness:
  "strip latin1 example_text \<noteq> []
   \<and> (\<exists>a. analyze_content latin1 example_text = Inr a
        \<and> densidad_keywords (palabras_clave_adres a) = Some (5 / 2)
        \<and> length (terminos_legales (palabras_clave_legales a)) = 4
        \<and> tipo_documento (clasificacion a) = ''documento_normativo_adres''
        \<and> confianza (clasificacion a) = 9 / 10)"
proof -
  have h: "strip latin1 example_text \<noteq> []"
    by (simp add: latin1_defs example_text_def strip_def)
  have w: "length (split_ws latin1 example_text) = 40"
    by (simp add: latin1_defs example_text_def split_ws_def)
  from classification_decision_table[OF h] obtain a where
    a: "analyze_content latin1 example_text = Inr a"
      "densidad_keywords (palabras_clave_adres a) = Some (5 / 2)"
      "length (terminos_legales (palabras_clave_legales a)) = 4"
      "tipo_documento (clasificacion a) = ''documento_normativo_adres''"
      "confianza (clasificacion a) = 9 / 10"
    by (auto simp add: Let_def w example_text_adres_total example_text_legal_terms)
  show ?thesis
    by (intro conjI h exI[of _ a]) (simp_all add: a)
qed

text \<open>
  Claim C1 as it is stated, for every non-empty text, fails: the text of one space is
  not empty, and the guard of \<open>analyze_content\<close> gives it the empty analysis, of type
  \<open>documento_vacio\<close> and confidence 0, which is no row of the table.
\<close>

theorem whitespace_text_counterexample:
  "[32] \<noteq> ([] :: pystr)
   \<and> analyze_content latin1 [32] = Inr create_empty_analysis
   \<and> tipo_documento (clasificacion create_empty_analysis) = ''documento_vacio''
   \<and> confianza (clasificacion create_empty_analysis) = 0"
  by (simp add: analyze_content_def strip_def latin1_def py_isspace_def create_empty_analysis_def)

text \<open>
  Claim C7. For a text that is empty or consists only of white space,
  \<open>analyze_content\<close> returns the empty analysis, of type \<open>documento_vacio\<close> and
  confidence 0, and raises no exception.
\<close>

theorem empty_text_analysis:
  assumes "\<forall>c \<in> set text. isspace L c"
  shows "analyze_content L text = Inr create_empty_analysis
     \<and> tipo_documento (clasificacion create_empty_analysis) = ''documento_vacio''
     \<and> confianza (clasificacion create_empty_analysis) = 0"
  using assms by (simp add: analyze_content_def strip_Nil_iff create_empty_analysis_def)

text \<open>The empty analysis for a text of four white-space characters and for the empty text.\<close>

theorem empty_text_analysis_witness:
  "isspace latin1 32 \<and> isspace latin1 9 \<and> isspace latin1 10 \<and> isspace latin1 160
   \<and> analyze_content latin1 [32, 9, 10, 160] = Inr create_empty_analysis
   \<and> analyze_content latin1 [] = Inr create_empty_analysis
   \<and> confianza (clasificacion create_empty_analysis) = 0"
proof -
  have h: "\<forall>c \<in> set [32, 9, 10, 160]. isspace latin1 c"
    by (simp add: latin1_def py_isspace_def)
  have e: "\<forall>c \<in> set []. isspace latin1 c" by simp
  from empty_text_analysis[OF h] empty_text_analysis[OF e] h show ?thesis by simp
qed

text \<open>
  Claim C10. For every text the analysis is returned and its confidence is one of
  0, 0.5, 0.6, 0.7 and 0.9, hence between 0 and 1; it is 0 exactly when the text is
  empty or only white space.
\<close>

theorem confidence_values:
  "\<exists>a. analyze_content L text = Inr a
     \<and> confianza (clasificacion a) \<in> {0, 5 / 10, 6 / 10, 7 / 10, 9 / 10}
     \<and> 0 \<le> confianza (clasificacion a) \<and> confianza (clasificacion a) \<le> 1
     \<and> (confianza (clasificacion a) = 0 \<longleftrightarrow> (\<forall>c \<in> set text. isspace L c))"
proof (cases "\<forall>c \<in> set text. isspace L c")
  case True
  then show ?thesis
    by (simp add: analyze_content_def strip_Nil_iff create_empty_analysis_def)
next
  case False
  then have "strip L text \<noteq> []" by (simp add: strip_Nil_iff)
  from analyze_content_nonempty[OF this] obtain c where
    an: "analyze_content L text =
           Inr \<lparr> palabras_clave_adres = find_adres_keywords L text,
                 palabras_clave_legales = find_legal_keywords L text,
                 clasificacion = c \<rparr>"
    and tc: "(tipo_documento c, confianza c) =
         (let d = (of_nat (sum_list (map (\<lambda>k. count_keyword L k (str_lower L text)) adres_keywords))
                     / of_nat (length (split_ws L text))) * (100::rat);
              n = length (filter (\<lambda>k. 0 < count_keyword L k (str_lower L text)) legal_keywords);
              h = (\<exists>(ty, pat) \<in> set norm_patterns. findall L pat (str_lower L text) \<noteq> [])
          in if d > 2 \<and> n > 3 then (''documento_normativo_adres'', 9 / 10)
             else if d > 1 then (''documento_adres'', 7 / 10)
             else if n > 2 \<or> h then (''documento_legal'', 6 / 10)
             else (''documento_general'', 5 / 10))" by blast
  have "confianza c \<in> {5 / 10, 6 / 10, 7 / 10, 9 / 10}"
    using tc by (simp add: Let_def split: if_splits)
  then have cc: "confianza c \<in> {0, 5 / 10, 6 / 10, 7 / 10, 9 / 10} \<and> 0 \<le> confianza c
      \<and> confianza c \<le> 1 \<and> (confianza c = 0 \<longleftrightarrow> (\<forall>c \<in> set text. isspace L c))"
    using False by auto
  show ?thesis
    by (rule exI[of _ "\<lparr> palabras_clave_adres = find_adres_keywords L text,
                 palabras_clave_legales = find_legal_keywords L text,
                 clasificacion = c \<rparr>"]) (use an cc in auto)
qed

text \<open>The confidence of the analysis of the text \<open>eps\<close> is one of the five and not 0.\<close>

theorem confidence_values_witness:
  "\<exists>a. analyze_content latin1 (ascii ''eps'') = Inr a
     \<and> confianza (clasificacion a) \<in> {0, 5 / 10, 6 / 10, 7 / 10, 9 / 10}
     \<and> confianza (clasificacion a) \<noteq> 0"
proof -
  have "\<not> (\<forall>c \<in> set (ascii ''eps''). isspace latin1 c)"
    by (simp add: latin1_defs)
  with confidence_values[of latin1 "ascii ''eps''"] show ?thesis by blast
qed

section \<open>The claim about keyword counting\<close>









section \<open>The claim about the container resolver\<close>

lemma find_first_Some: "find_first P ns = Some e \<Longrightarrow> P e"
  by (induction P ns rule: find_first.induct) (auto split: if_splits option.splits)

lemma selector_loop_winner:
  "i < length sels \<Longrightarrow> \<forall>j < i. \<not> rule_wins L soup (sels ! j) \<Longrightarrow> rule_wins L soup (sels ! i) \<Longrightarrow>
   selector_loop L soup sels = find_first (matches_selector (sels ! i)) soup"
proof (induction sels arbitrary: i)
  case Nil
  then show ?case by simp
next
  case (Cons sel sels)
  show ?case
  proof (cases i)
    case 0
    with Cons.prems(3) show ?thesis
      by (auto simp: rule_wins_def split: option.splits)
  next
    case (Suc k)
    have nw: "\<not> rule_wins L soup sel" using Cons.prems(2) Suc by auto
    have "selector_loop L soup sels = find_first (matches_selector (sels ! k)) soup"
    proof (rule Cons.IH)
      show "k < length sels" using Cons.prems(1) Suc by simp
      show "\<forall>j<k. \<not> rule_wins L soup (sels ! j)" using Cons.prems(2) Suc by auto
      show "rule_wins L soup (sels ! k)" using Cons.prems(3) Suc by simp
    qed
    with nw Suc show ?thesis
      by (auto simp: rule_wins_def split: option.splits)
  qed
qed

lemma selector_loop_fallback:
  "\<forall>sel \<in> set sels. \<not> rule_wins L soup sel \<Longrightarrow>
   selector_loop L soup sels = find_first (matches_selector (Selector (ascii ''body'') None)) soup"
  by (induction sels) (auto simp: rule_wins_def split: option.splits)

lemma selector_loop_result:
  "selector_loop L soup sels = Some c \<Longrightarrow>
   (\<exists>sel \<in> set sels. matches_selector sel c \<and> get_text L [] c \<noteq> [])
   \<or> matches_selector (Selector (ascii ''body'') None) c"
proof (induction sels)
  case Nil
  then show ?case by (auto dest: find_first_Some)
next
  case (Cons sel sels)
  then show ?case
    by (auto split: option.splits if_splits dest: find_first_Some)
qed

lemmas page_defs = example_page_def two_mains_page_def main_element_def content_div_def
  get_text_def strip_def


text \<open>
  Claim C6, as the code has it. The rules are tried in their fixed order; a rule stands
  for its first match in document order only (\<open>soup.find\<close>), and it wins when that
  element has non-empty stripped text. The resolver returns the first match of the
  first rule that wins, and the first \<open>body\<close> element when no rule wins; what it
  returns matches a rule and has non-empty stripped text, or is a \<open>body\<close>. In
  particular, when the first \<open>main\<close> element of the document has non-empty stripped
  text, it is selected, whatever else the document contains.
\<close>

theorem find_main_container_rules:
  "(\<forall>i < length selectors.
       (\<forall>j < i. \<not> rule_wins L soup (selectors ! j)) \<and> rule_wins L soup (selectors ! i) \<longrightarrow>
       find_main_container L soup = find_first (matches_selector (selectors ! i)) soup)
   \<and> ((\<forall>sel \<in> set selectors. \<not> rule_wins L soup sel) \<longrightarrow>
        find_main_container L soup = find_first (matches_selector (Selector (ascii ''body'') None)) soup)
   \<and> (\<forall>c. find_main_container L soup = Some c \<longrightarrow>
        (\<exists>sel \<in> set selectors. matches_selector sel c \<and> get_text L [] c \<noteq> [])
        \<or> matches_selector (Selector (ascii ''body'') None) c)
   \<and> (\<forall>m. find_first (matches_selector (Selector (ascii ''main'') None)) soup = Some m
            \<and> get_text L [] m \<noteq> [] \<longrightarrow>
        find_main_container L soup = Some m)"
proof (intro conjI allI impI)
  fix i
  assume "i < length selectors"
    and "(\<forall>j < i. \<not> rule_wins L soup (selectors ! j)) \<and> rule_wins L soup (selectors ! i)"
  then show "find_main_container L soup = find_first (matches_selector (selectors ! i)) soup"
    unfolding find_main_container_def using selector_loop_winner by blast
next
  assume "\<forall>sel \<in> set selectors. \<not> rule_wins L soup sel"
  then show "find_main_container L soup = find_first (matches_selector (Selector (ascii ''body'') None)) soup"
    unfolding find_main_container_def by (rule selector_loop_fallback)
next
  fix c
  assume "find_main_container L soup = Some c"
  then show "(\<exists>sel \<in> set selectors. matches_selector sel c \<and> get_text L [] c \<noteq> [])
        \<or> matches_selector (Selector (ascii ''body'') None) c"
    unfolding find_main_container_def by (rule selector_loop_result)
next
  fix m
  assume m: "find_first (matches_selector (Selector (ascii ''main'') None)) soup = Some m
            \<and> get_text L [] m \<noteq> []"
  have s0: "selectors ! 0 = Selector (ascii ''main'') None" by (simp add: selectors_def)
  have "rule_wins L soup (selectors ! 0)" using m by (simp add: s0 rule_wins_def)
  moreover have "0 < length selectors" by (simp add: selectors_def)
  ultimately have "selector_loop L soup selectors = find_first (matches_selector (selectors ! 0)) soup"
    using selector_loop_winner[of 0 selectors L soup] by simp
  then show "find_main_container L soup = Some m"
    using m by (simp add: find_main_container_def s0)
qed


text \<open>
  A document with a \<open>div\<close> of class \<open>content\<close> followed by a \<open>main\<close>, both with
  text: the \<open>main\<close> element is selected.
\<close>

theorem find_main_container_rules_witness:
  "find_first (matches_selector (Selector (ascii ''main'') None)) example_page = Some main_element
   \<and> get_text latin1 [] main_element \<noteq> []
   \<and> rule_wins latin1 example_page (Selector (ascii ''div'') (Some (ascii ''class'', ascii ''content'')))
   \<and> find_main_container latin1 example_page = Some main_element"
proof -
  have a: "find_first (matches_selector (Selector (ascii ''main'') None)) example_page = Some main_element"
    by (simp add: page_defs ascii_def)
  have b: "get_text latin1 [] main_element \<noteq> []"
    by (simp add: page_defs latin1_defs)
  have c: "rule_wins latin1 example_page (Selector (ascii ''div'') (Some (ascii ''class'', ascii ''content'')))"
    by (simp add: rule_wins_def page_defs latin1_defs)
  from find_main_container_rules[of latin1 example_page, THEN conjunct2, THEN conjunct2, THEN conjunct2,
        THEN spec, THEN mp, OF conjI[OF a b]]
  show ?thesis using a b c by simp
qed


text \<open>
  Claim C6 as it is stated fails: in \<open>two_mains_page\<close> a \<open>main\<close> element with
  non-empty text and a \<open>div\<close> of class \<open>content\<close> with non-empty text both exist,
  and the resolver returns the \<open>div\<close>, because the first \<open>main\<close> of the document
  holds white space only.
\<close>

theorem claimed_container_counterexample:
  "find_first (\<lambda>e. matches_selector (Selector (ascii ''main'') None) e \<and> get_text latin1 [] e \<noteq> [])
      two_mains_page = Some main_element
   \<and> find_first (\<lambda>e. matches_selector (Selector (ascii ''div'') (Some (ascii ''class'', ascii ''content''))) e
                     \<and> get_text latin1 [] e \<noteq> [])
      two_mains_page = Some content_div
   \<and> claimed_container latin1 two_mains_page = Some main_element
   \<and> find_main_container latin1 two_mains_page = Some content_div
   \<and> content_div \<noteq> main_element"
  by (simp add: claimed_container_def find_main_container_def selectors_def page_defs latin1_defs)

section \<open>The claims about the scraper\<close>

subsection \<open>Domain validation\<close>

lemma take_eq_iff_prefix: "take (length a) b = a \<longleftrightarrow> (\<exists>s. b = a @ s)"
  by (metis append_eq_conv_conj append_take_drop_id)

lemma contains_iff: "contains a b \<longleftrightarrow> (\<exists>p s. b = p @ a @ s)"
proof (induction b)
  case Nil
  show ?case by simp
next
  case (Cons c cs)
  have "(\<exists>p s. c # cs = p @ a @ s) \<longleftrightarrow> (\<exists>s. c # cs = a @ s) \<or> (\<exists>p s. cs = p @ a @ s)"
  proof
    assume "\<exists>p s. c # cs = p @ a @ s"
    then obtain p s where ps: "c # cs = p @ a @ s" by blast
    show "(\<exists>s. c # cs = a @ s) \<or> (\<exists>p s. cs = p @ a @ s)"
    proof (cases p)
      case Nil
      with ps show ?thesis by auto
    next
      case (Cons x p')
      with ps have "cs = p' @ a @ s" by simp
      then show ?thesis by blast
    qed
  next
    assume "(\<exists>s. c # cs = a @ s) \<or> (\<exists>p s. cs = p @ a @ s)"
    then show "\<exists>p s. c # cs = p @ a @ s"
    proof
      assume "\<exists>s. c # cs = a @ s"
      then obtain s where "c # cs = [] @ a @ s" by auto
      then show ?thesis by blast
    next
      assume "\<exists>p s. cs = p @ a @ s"
      then obtain p s where "c # cs = (c # p) @ a @ s" by auto
      then show ?thesis by blast
    qed
  qed
  then show ?case using Cons.IH take_eq_iff_prefix[of a "c # cs"] by simp
qed

lemma validate_url_iff:
  "validate_url C L u \<longleftrightarrow>
     (\<exists>netloc. urlparse_netloc L u = Some netloc
        \<and> (\<exists>domain \<in> set (allowed_domains C). \<exists>p s. netloc = p @ domain @ s))"
  by (auto simp: validate_url_def list_ex_iff contains_iff split: option.splits)


lemma adres_netloc: "urlparse_netloc latin1 adres_url = Some (ascii ''normograma.adres.gov.co'')"
  by (simp add: latin1_def basic_netloc_def adres_url_def ascii_def scheme_char_def Let_def)


lemma evil_url_nonempty: "evil_url \<noteq> []" "adres_url \<noteq> []"
  by (simp_all add: evil_url_def adres_url_def ascii_def)





subsection \<open>The retry loop\<close>

lemma requests_made_append [simp]: "requests_made (tr @ evs) = requests_made tr + requests_made evs"
  by (simp add: requests_made_def)

lemma requests_made_simps [simp]:
  "requests_made [] = 0"
  "requests_made (Http_get u # evs) = Suc (requests_made evs)"
  "requests_made (Ethical_wait d # evs) = requests_made evs"
  "requests_made (Backoff_wait d # evs) = requests_made evs"
  "requests_made (Document_wait d # evs) = requests_made evs"
  "requests_made (Processing i n u # evs) = requests_made evs"
  by (simp_all add: requests_made_def)

lemma requests_made_attempt_wait [simp]: "requests_made (attempt_wait C a # evs) = requests_made evs"
  by (simp add: attempt_wait_def)

lemma wait_ok:
  "0 \<le> delay_between_requests C \<Longrightarrow>
   (if a > 0 then sleep Backoff_wait (delay_between_requests C * 2 ^ a) tr
    else sleep Ethical_wait (delay_between_requests C) tr) = Inr (tr @ [attempt_wait C a])"
proof -
  assume b: "0 \<le> delay_between_requests C"
  then have "0 \<le> delay_between_requests C * 2 ^ a" by simp
  then have "\<not> delay_between_requests C * 2 ^ a < 0" by simp
  with b show ?thesis by (simp add: sleep_def attempt_wait_def)
qed

lemma make_request_quiet:
  "fails_quietly C (net url (requests_made tr)) \<Longrightarrow>
   make_request C net url tr = (Inr None, tr @ [Http_get url])"
  by (auto simp: make_request_def fails_quietly_def Let_def split: get_outcome.splits)

lemma make_request_success:
  "net url (requests_made tr) = Returns r \<Longrightarrow> request_succeeds C (Returns r) \<Longrightarrow>
   make_request C net url tr = (Inr (Some r), tr @ [Http_get url])"
  by (auto simp: make_request_def request_succeeds_def Let_def)

lemma make_request_fails:
  "\<not> request_succeeds C (net url (requests_made tr)) \<Longrightarrow>
   make_request C net url tr = (Inr None, tr @ [Http_get url])
   \<or> (\<exists>e. make_request C net url tr = (Inl e, tr @ [Http_get url]))"
  by (auto simp: make_request_def request_succeeds_def Let_def split: get_outcome.splits)

lemma attempt_quiet_step:
  assumes "0 \<le> delay_between_requests C" "fails_quietly C (net url (requests_made tr))"
  shows "attempts_loop C L net url (a # rest) tr =
         attempts_loop C L net url rest (tr @ [attempt_wait C a, Http_get url])"
proof -
  have "make_request C net url (tr @ [attempt_wait C a]) = (Inr None, (tr @ [attempt_wait C a]) @ [Http_get url])"
    using assms(2) by (intro make_request_quiet) simp
  then show ?thesis
    by (simp add: wait_ok[OF assms(1)] Let_def)
qed

lemma attempt_fail_step:
  assumes "0 \<le> delay_between_requests C" "\<not> request_succeeds C (net url (requests_made tr))"
    "int a \<noteq> max_retries C"
  shows "attempts_loop C L net url (a # rest) tr =
         attempts_loop C L net url rest (tr @ [attempt_wait C a, Http_get url])"
proof -
  have "\<not> request_succeeds C (net url (requests_made (tr @ [attempt_wait C a])))"
    using assms(2) by simp
  with make_request_fails[of C net url "tr @ [attempt_wait C a]"] show ?thesis
    using assms(3) by (auto simp: wait_ok[OF assms(1)] Let_def)
qed

lemma attempt_success_step:
  assumes "0 \<le> delay_between_requests C" "net url (requests_made tr) = Returns r"
    "request_succeeds C (Returns r)"
  shows "attempts_loop C L net url (a # rest) tr =
         (process_response L r url (a + 1), tr @ [attempt_wait C a, Http_get url])"
proof -
  have "net url (requests_made (tr @ [attempt_wait C a])) = Returns r" using assms(2) by simp
  with make_request_success[of net url "tr @ [attempt_wait C a]" r C] assms(3) show ?thesis
    by (simp add: wait_ok[OF assms(1)] Let_def request_succeeds_def)
qed

lemma attempts_all_quiet:
  assumes "0 \<le> delay_between_requests C"
  shows "\<forall>i < length as. fails_quietly C (net url (requests_made tr + i)) \<Longrightarrow>
     attempts_loop C L net url as tr =
       (create_error_response url Unknown_error ''unknown_error'',
        tr @ concat (map (\<lambda>a. [attempt_wait C a, Http_get url]) as))"
proof (induction as arbitrary: tr)
  case Nil
  show ?case by simp
next
  case (Cons a as)
  have q0: "fails_quietly C (net url (requests_made tr))" using Cons.prems by force
  have "\<forall>i < length as. fails_quietly C (net url (requests_made (tr @ [attempt_wait C a, Http_get url]) + i))"
  proof (intro allI impI)
    fix i assume "i < length as"
    then have "fails_quietly C (net url (requests_made tr + Suc i))" using Cons.prems by force
    then show "fails_quietly C (net url (requests_made (tr @ [attempt_wait C a, Http_get url]) + i))"
      by simp
  qed
  from Cons.IH[OF this] show ?case
    using attempt_quiet_step[of C net url tr L a as] assms q0 by simp
qed

lemma requests_made_attempts [simp]:
  "requests_made (concat (map (\<lambda>a. [attempt_wait C a, Http_get url]) as)) = length as"
  by (induction as) simp_all

lemma scrape_document_all_quiet:
  assumes "validate_url C L (target_url C url)" "0 \<le> delay_between_requests C"
    "\<forall>i < nat (max_retries C + 1). fails_quietly C (net (target_url C url) (requests_made tr + i))"
  shows "scrape_document C L net url tr =
       (create_error_response (target_url C url) Unknown_error ''unknown_error'',
        tr @ concat (map (\<lambda>a. [attempt_wait C a, Http_get (target_url C url)]) [0 ..< nat (max_retries C + 1)]))"
  using assms(1,3) by (simp add: scrape_document_def attempts_all_quiet[OF assms(2)])

lemma analyze_content_total: "\<exists>a. analyze_content L text = Inr a"
proof (cases "strip L text = []")
  case True
  then show ?thesis by (simp add: analyze_content_def)
next
  case False
  from analyze_content_nonempty[OF this] show ?thesis by blast
qed

lemma process_response_ok:
  assumes "parse r = Parsed soup" "find_main_container L soup = Some c"
  shows "\<exists>rec. process_response L r url n = OK rec \<and> intentos_realizados rec = n \<and> url_original rec = url"
proof -
  obtain a where "analyze_content L (extract_clean_text L c) = Inr a"
    using analyze_content_total by blast
  then show ?thesis using assms by (simp add: process_response_def Let_def)
qed

lemma process_response_error_type:
  "record_error_type (process_response L r url n) \<in> {None, Some ''parsing_error'', Some ''processing_error''}"
  by (auto simp: process_response_def create_error_response_def Let_def
      split: parse_outcome.splits option.splits sum.splits)

lemma attempts_loop_error_type:
  "record_error_type (fst (attempts_loop C L net url as tr)) \<in>
     {None, Some ''parsing_error'', Some ''processing_error'', Some ''extraction_error'', Some ''unknown_error''}"
proof (induction as arbitrary: tr)
  case Nil
  show ?case by (simp add: create_error_response_def)
next
  case (Cons a as)
  have pr: "\<And>r n. record_error_type (process_response L r url n) \<in>
     {None, Some ''parsing_error'', Some ''processing_error'', Some ''extraction_error'', Some ''unknown_error''}"
    using process_response_error_type by blast
  show ?case
    using Cons.IH pr
    by (auto simp: Let_def create_error_response_def sleep_def
        split: sum.splits prod.splits option.splits if_splits)
qed

lemma scrape_document_error_type:
  "record_error_type (fst (scrape_document C L net url tr)) \<in>
     {None, Some ''validation_error'', Some ''parsing_error'', Some ''processing_error'',
      Some ''extraction_error'', Some ''unknown_error''}"
  using attempts_loop_error_type[of C L net "target_url C url" "[0 ..< nat (max_retries C + 1)]" tr]
  by (auto simp: scrape_document_def create_error_response_def)

lemma example_page_container: "find_main_container latin1 example_page = Some main_element"
proof -
  have s0: "selectors ! 0 = Selector (ascii ''main'') None" by (simp add: selectors_def)
  have f: "find_first (matches_selector (Selector (ascii ''main'') None)) example_page = Some main_element"
    by (simp add: page_defs ascii_def)
  have g: "get_text latin1 [] main_element \<noteq> []"
    by (simp add: page_defs latin1_defs)
  have "rule_wins latin1 example_page (selectors ! 0)" using f g by (simp add: s0 rule_wins_def)
  moreover have "0 < length selectors" by (simp add: selectors_def)
  ultimately have "selector_loop latin1 example_page selectors =
      find_first (matches_selector (selectors ! 0)) example_page"
    using selector_loop_winner[of 0 selectors latin1 example_page] by simp
  then show ?thesis using f by (simp add: find_main_container_def s0)
qed

lemma adres_url_valid: "validate_url default_config latin1 adres_url"
  using adres_netloc by (simp add: validate_url_def default_config_def ascii_def)

lemma adres_target [simp]: "target_url C (Some adres_url) = adres_url"
  using evil_url_nonempty by (simp add: target_url_def)

lemma oversized_quiet: "oversized C out \<Longrightarrow> fails_quietly C out"
  by (auto simp: oversized_def fails_quietly_def split: get_outcome.splits)


text \<open>
  Claim C2, as the code has it. A response whose body is above the maximum size is a
  failed request like any other: \<open>_make_request\<close> returns \<open>None\<close> for it and the
  loop goes on to the next attempt. When every attempt meets such a response, all the
  \<open>max_retries + 1\<close> requests are made, each after its wait, and the record has the
  error type \<open>unknown_error\<close>.
\<close>

theorem oversized_is_retried:
  assumes "validate_url C L (target_url C url)" "0 \<le> delay_between_requests C"
    and "\<forall>i < nat (max_retries C + 1). oversized C (net (target_url C url) (requests_made tr + i))"
  shows "(\<forall>u tr'. oversized C (net u (requests_made tr')) \<longrightarrow>
            make_request C net u tr' = (Inr None, tr' @ [Http_get u]))
     \<and> scrape_document C L net url tr =
         (create_error_response (target_url C url) Unknown_error ''unknown_error'',
          tr @ concat (map (\<lambda>a. [attempt_wait C a, Http_get (target_url C url)])
                           [0 ..< nat (max_retries C + 1)]))
     \<and> record_error_type (fst (scrape_document C L net url tr)) = Some ''unknown_error''
     \<and> requests_made (snd (scrape_document C L net url tr)) = requests_made tr + nat (max_retries C + 1)"
proof -
  have q: "\<forall>i < nat (max_retries C + 1). fails_quietly C (net (target_url C url) (requests_made tr + i))"
    using assms(3) oversized_quiet by blast
  have sd: "scrape_document C L net url tr =
         (create_error_response (target_url C url) Unknown_error ''unknown_error'',
          tr @ concat (map (\<lambda>a. [attempt_wait C a, Http_get (target_url C url)])
                           [0 ..< nat (max_retries C + 1)]))"
    using scrape_document_all_quiet[of C L url net tr] assms(1,2) q by blast
  have mr: "\<forall>u tr'. oversized C (net u (requests_made tr')) \<longrightarrow>
            make_request C net u tr' = (Inr None, tr' @ [Http_get u])"
    using make_request_quiet oversized_quiet by blast
  show ?thesis
    using mr by (simp add: sd create_error_response_def)
qed


text \<open>
  The default configuration against a server whose body is always one byte above
  10 MiB: four requests, the waits 3, 6, 12 and 24, and \<open>unknown_error\<close>.
\<close>

theorem oversized_is_retried_witness:
  "validate_url default_config latin1 adres_url
   \<and> oversized default_config (Returns big_response)
   \<and> scrape_document default_config latin1 (\<lambda>u n. Returns big_response) (Some adres_url) [] =
        (create_error_response adres_url Unknown_error ''unknown_error'',
         [Ethical_wait 3, Http_get adres_url, Backoff_wait 6, Http_get adres_url,
          Backoff_wait 12, Http_get adres_url, Backoff_wait 24, Http_get adres_url])
   \<and> requests_made (snd (scrape_document default_config latin1 (\<lambda>u n. Returns big_response)
        (Some adres_url) [])) = 4"
proof -
  have v: "validate_url default_config latin1 (target_url default_config (Some adres_url))"
    using adres_url_valid by simp
  have d: "0 \<le> delay_between_requests default_config" by (simp add: default_config_def)
  have o: "oversized default_config (Returns big_response)"
    by (simp add: oversized_def big_response_def good_response_def response_ok_def default_config_def)
  then have a: "\<forall>i < nat (max_retries default_config + 1).
      oversized default_config ((\<lambda>u n. Returns big_response) (target_url default_config (Some adres_url))
        (requests_made [] + i))" by simp
  have n: "[0 ..< nat (max_retries default_config + 1)] = [0, 1, 2, 3]"
    by (simp add: default_config_def upt_rec)
  from oversized_is_retried[of default_config latin1 "Some adres_url" "\<lambda>u n. Returns big_response" "[]", OF v d a]
  show ?thesis
    using adres_url_valid o
    by (simp add: n attempt_wait_def) (simp add: default_config_def)
qed


text \<open>
  Claim C2 as it is stated fails: with the default configuration, a first response
  above the maximum size is followed by the backoff wait and a second request, whose
  response is processed as the result of attempt 2.
\<close>

theorem oversized_no_retry_counterexample:
  "oversized default_config (Returns big_response)
   \<and> scrape_document default_config latin1
        (\<lambda>u n. if n = 0 then Returns big_response else Returns good_response) (Some adres_url) [] =
        (process_response latin1 good_response adres_url 2,
         [Ethical_wait 3, Http_get adres_url, Backoff_wait 6, Http_get adres_url])
   \<and> (\<exists>rec. process_response latin1 good_response adres_url 2 = OK rec \<and> intentos_realizados rec = 2)"
proof -
  let ?net = "\<lambda>(u::pystr) (n::nat). if n = 0 then Returns big_response else Returns good_response"
  have d: "0 \<le> delay_between_requests default_config" by (simp add: default_config_def)
  have o: "oversized default_config (Returns big_response)"
    by (simp add: oversized_def big_response_def good_response_def response_ok_def default_config_def)
  have g: "request_succeeds default_config (Returns good_response)"
    by (simp add: request_succeeds_def good_response_def response_ok_def default_config_def)
  have n: "[0 ..< nat (max_retries default_config + 1)] = [0, 1, 2, 3]"
    by (simp add: default_config_def upt_rec)
  have s1: "attempts_loop default_config latin1 ?net adres_url [0, 1, 2, 3] [] =
      attempts_loop default_config latin1 ?net adres_url [1, 2, 3]
        ([] @ [attempt_wait default_config 0, Http_get adres_url])"
    using attempt_quiet_step[of default_config ?net adres_url "[]" latin1 0 "[1, 2, 3]"] d
      oversized_quiet[OF o] by simp
  have s2: "attempts_loop default_config latin1 ?net adres_url [1, 2, 3]
        ([] @ [attempt_wait default_config 0, Http_get adres_url]) =
      (process_response latin1 good_response adres_url (1 + 1),
       ([] @ [attempt_wait default_config 0, Http_get adres_url]) @ [attempt_wait default_config 1, Http_get adres_url])"
    using attempt_success_step[of default_config ?net adres_url
        "[] @ [attempt_wait default_config 0, Http_get adres_url]" good_response latin1 1 "[2, 3]"] d g
    by simp
  have sd: "scrape_document default_config latin1 ?net (Some adres_url) [] =
        (process_response latin1 good_response adres_url 2,
         [Ethical_wait 3, Http_get adres_url, Backoff_wait 6, Http_get adres_url])"
  proof -
    have "scrape_document default_config latin1 ?net (Some adres_url) [] =
        attempts_loop default_config latin1 ?net adres_url [0, 1, 2, 3] []"
      using adres_url_valid by (simp add: scrape_document_def n del: attempts_loop.simps)
    also note s1
    also note s2
    finally show ?thesis by (simp add: attempt_wait_def default_config_def numeral_2_eq_2)
  qed
  have ok: "\<exists>rec. process_response latin1 good_response adres_url 2 = OK rec \<and> intentos_realizados rec = 2"
    using process_response_ok[of good_response example_page latin1 main_element adres_url 2]
      example_page_container by (auto simp: good_response_def)
  show ?thesis using o sd ok by (intro conjI)
qed

lemma quiet_examples:
  "fails_quietly default_config (Raises RequestException)"
  "fails_quietly default_config (Returns unavailable_response)"
  by (simp_all add: fails_quietly_def unavailable_response_def good_response_def response_ok_def)

lemma default_attempts: "[0 ..< nat (max_retries default_config + 1)] = [0, 1, 2, 3]"
  by (simp add: default_config_def upt_rec)

lemma default_delay: "0 \<le> delay_between_requests default_config"
  by (simp add: default_config_def)


text \<open>
  Claim C3, as the code has it. When every attempt of a scrape fails with a
  \<open>RequestException\<close> (a transport failure or an error status) or with a body above
  the maximum size, the record has status \<open>ERROR\<close> and error type \<open>unknown_error\<close>,
  whatever the kind of the last failure, after \<open>max_retries + 1\<close> requests. No scrape
  ever returns the error type \<open>http_error\<close> or \<open>network_error\<close>.
\<close>

theorem exhausted_retries_unknown_error:
  assumes "validate_url C L (target_url C url)" "0 \<le> delay_between_requests C"
    and "\<forall>i < nat (max_retries C + 1). fails_quietly C (net (target_url C url) (requests_made tr + i))"
  shows "status (fst (scrape_document C L net url tr)) = ''ERROR''
     \<and> record_error_type (fst (scrape_document C L net url tr)) = Some ''unknown_error''
     \<and> requests_made (snd (scrape_document C L net url tr)) = requests_made tr + nat (max_retries C + 1)
     \<and> (\<forall>C' L' net' url' tr'.
          record_error_type (fst (scrape_document C' L' net' url' tr')) \<noteq> Some ''http_error''
          \<and> record_error_type (fst (scrape_document C' L' net' url' tr')) \<noteq> Some ''network_error'')"
proof -
  have sd: "scrape_document C L net url tr =
       (create_error_response (target_url C url) Unknown_error ''unknown_error'',
        tr @ concat (map (\<lambda>a. [attempt_wait C a, Http_get (target_url C url)]) [0 ..< nat (max_retries C + 1)]))"
    using scrape_document_all_quiet[of C L url net tr] assms by blast
  have never: "\<forall>C' L' net' url' tr'.
          record_error_type (fst (scrape_document C' L' net' url' tr')) \<noteq> Some ''http_error''
          \<and> record_error_type (fst (scrape_document C' L' net' url' tr')) \<noteq> Some ''network_error''"
  proof (intro allI)
    fix C' L' net' url' tr'
    from scrape_document_error_type[of C' L' net' url' tr']
    show "record_error_type (fst (scrape_document C' L' net' url' tr')) \<noteq> Some ''http_error''
          \<and> record_error_type (fst (scrape_document C' L' net' url' tr')) \<noteq> Some ''network_error''"
      by auto
  qed
  show ?thesis
    using never by (simp add: sd create_error_response_def)
qed


text \<open>The default configuration against a server that always answers 503.\<close>

theorem exhausted_retries_unknown_error_witness:
  "validate_url default_config latin1 adres_url
   \<and> fails_quietly default_config (Returns unavailable_response)
   \<and> status (fst (scrape_document default_config latin1 (\<lambda>u n. Returns unavailable_response)
        (Some adres_url) [])) = ''ERROR''
   \<and> record_error_type (fst (scrape_document default_config latin1 (\<lambda>u n. Returns unavailable_response)
        (Some adres_url) [])) = Some ''unknown_error''
   \<and> requests_made (snd (scrape_document default_config latin1 (\<lambda>u n. Returns unavailable_response)
        (Some adres_url) [])) = 4"
proof -
  have v: "validate_url default_config latin1 (target_url default_config (Some adres_url))"
    using adres_url_valid by simp
  have a: "\<forall>i < nat (max_retries default_config + 1).
      fails_quietly default_config ((\<lambda>u n. Returns unavailable_response)
        (target_url default_config (Some adres_url)) (requests_made [] + i))"
    using quiet_examples(2) by simp
  have m: "nat (max_retries default_config + 1) = 4" by (simp add: default_config_def)
  from exhausted_retries_unknown_error[of default_config latin1 "Some adres_url"
      "\<lambda>u n. Returns unavailable_response" "[]", OF v default_delay a]
  show ?thesis
    using adres_url_valid quiet_examples(2) by (simp add: m)
qed


text \<open>
  Claim C3 as it is stated fails: with every attempt failing in transport, and with
  every attempt answered by status 503, the error type is \<open>unknown_error\<close>, neither
  \<open>network_error\<close> nor \<open>http_error\<close>.
\<close>

theorem failure_kind_counterexample:
  "record_error_type (fst (scrape_document default_config latin1 (\<lambda>u n. Raises RequestException)
        (Some adres_url) [])) = Some ''unknown_error''
   \<and> record_error_type (fst (scrape_document default_config latin1 (\<lambda>u n. Returns unavailable_response)
        (Some adres_url) [])) = Some ''unknown_error''
   \<and> ''unknown_error'' \<noteq> ''network_error'' \<and> ''unknown_error'' \<noteq> ''http_error''"
proof -
  have v: "validate_url default_config latin1 (target_url default_config (Some adres_url))"
    using adres_url_valid by simp
  have a: "\<forall>i < nat (max_retries default_config + 1).
      fails_quietly default_config ((\<lambda>u n. Raises RequestException)
        (target_url default_config (Some adres_url)) (requests_made [] + i))"
    using quiet_examples(1) by simp
  have b: "\<forall>i < nat (max_retries default_config + 1).
      fails_quietly default_config ((\<lambda>u n. Returns unavailable_response)
        (target_url default_config (Some adres_url)) (requests_made [] + i))"
    using quiet_examples(2) by simp
  from scrape_document_all_quiet[of default_config latin1 "Some adres_url" "\<lambda>u n. Raises RequestException" "[]",
      OF v default_delay a]
    scrape_document_all_quiet[of default_config latin1 "Some adres_url" "\<lambda>u n. Returns unavailable_response" "[]",
      OF v default_delay b]
  show ?thesis by (simp add: create_error_response_def)
qed


lemma two_failures_then_response:
  assumes "validate_url C L (target_url C url)" "0 \<le> delay_between_requests C"
    and "max_retries C = 3"
    and "\<not> request_succeeds C (net (target_url C url) (requests_made tr))"
    and "\<not> request_succeeds C (net (target_url C url) (requests_made tr + 1))"
    and "net (target_url C url) (requests_made tr + 2) = Returns r"
    and "request_succeeds C (Returns r)"
  shows "scrape_document C L net url tr =
           (process_response L r (target_url C url) 3,
            tr @ [Ethical_wait (delay_between_requests C), Http_get (target_url C url),
                  Backoff_wait (delay_between_requests C * 2 ^ 1), Http_get (target_url C url),
                  Backoff_wait (delay_between_requests C * 2 ^ 2), Http_get (target_url C url)])"
proof -
  let ?u = "target_url C url"
  let ?t1 = "tr @ [attempt_wait C 0, Http_get ?u]"
  let ?t2 = "?t1 @ [attempt_wait C 1, Http_get ?u]"
  let ?t3 = "?t2 @ [attempt_wait C 2, Http_get ?u]"
  have n: "[0 ..< nat (max_retries C + 1)] = [0, 1, 2, 3]"
    using assms(3) by (simp add: upt_rec)
  have s1: "attempts_loop C L net ?u [0, 1, 2, 3] tr = attempts_loop C L net ?u [1, 2, 3] ?t1"
    using attempt_fail_step[of C net ?u tr 0 L "[1, 2, 3]"] assms(2,3,4) by simp
  have s2: "attempts_loop C L net ?u [1, 2, 3] ?t1 = attempts_loop C L net ?u [2, 3] ?t2"
    using attempt_fail_step[of C net ?u ?t1 1 L "[2, 3]"] assms(2,3,5) by simp
  have s3: "attempts_loop C L net ?u [2, 3] ?t2 = (process_response L r ?u (2 + 1), ?t3)"
    using attempt_success_step[of C net ?u ?t2 r L 2 "[3]"] assms(2,6,7) by simp
  have "scrape_document C L net url tr = attempts_loop C L net ?u [0, 1, 2, 3] tr"
    using assms(1) by (simp add: scrape_document_def n del: attempts_loop.simps)
  also note s1
  also note s2
  also note s3
  finally have sd: "scrape_document C L net url tr = (process_response L r ?u (2 + 1), ?t3)" .
  have three: "(2::nat) + 1 = 3" by simp
  show ?thesis
    unfolding sd three by (simp add: attempt_wait_def)
qed

lemma process_response_no_container:
  "parse r = Parsed soup \<Longrightarrow> find_main_container L soup = None \<Longrightarrow>
   process_response L r url n = create_error_response url No_container ''parsing_error''"
  by (simp add: process_response_def)

lemma process_response_parse_raises:
  "parse r = Parse_raises e \<Longrightarrow>
   process_response L r url n = create_error_response url (Processing_failed e) ''processing_error''"
  by (simp add: process_response_def)

lemma empty_soup_no_container: "find_main_container L [] = None"
  by (simp add: find_main_container_def selectors_def)


text \<open>
  Claim C5, as the code has it. With \<open>max_retries = 3\<close>, an allowed URL and a
  non-negative delay, when the first two requests fail and the third succeeds, the
  response of the third request is processed as attempt 3, and what was done is: the
  ethical wait of \<open>base\<close> and the first request, the wait of \<open>base * 2^1\<close> and the
  second request, the wait of \<open>base * 2^2\<close> and the third request. The record is a
  success whose \<open>intentos_realizados\<close> is 3 when the document of the response has a
  main container; it is the \<open>parsing_error\<close> record when the document has none, and
  the \<open>processing_error\<close> record when the parser raises.
\<close>

theorem retry_backoff_sequence:
  assumes "validate_url C L (target_url C url)" "0 \<le> delay_between_requests C"
    and "max_retries C = 3"
    and "\<not> request_succeeds C (net (target_url C url) (requests_made tr))"
    and "\<not> request_succeeds C (net (target_url C url) (requests_made tr + 1))"
    and "net (target_url C url) (requests_made tr + 2) = Returns r"
    and "request_succeeds C (Returns r)"
  shows "scrape_document C L net url tr =
           (process_response L r (target_url C url) 3,
            tr @ [Ethical_wait (delay_between_requests C), Http_get (target_url C url),
                  Backoff_wait (delay_between_requests C * 2 ^ 1), Http_get (target_url C url),
                  Backoff_wait (delay_between_requests C * 2 ^ 2), Http_get (target_url C url)])
     \<and> (\<forall>soup c. parse r = Parsed soup \<and> find_main_container L soup = Some c \<longrightarrow>
           (\<exists>rec. fst (scrape_document C L net url tr) = OK rec \<and> intentos_realizados rec = 3))
     \<and> (\<forall>soup. parse r = Parsed soup \<and> find_main_container L soup = None \<longrightarrow>
           status (fst (scrape_document C L net url tr)) = ''ERROR''
           \<and> record_error_type (fst (scrape_document C L net url tr)) = Some ''parsing_error'')
     \<and> (\<forall>e. parse r = Parse_raises e \<longrightarrow>
           status (fst (scrape_document C L net url tr)) = ''ERROR''
           \<and> record_error_type (fst (scrape_document C L net url tr)) = Some ''processing_error'')"
proof -
  let ?u = "target_url C url"
  note p1 = two_failures_then_response[of C L url net tr r, OF assms]
  have p2: "\<forall>soup c. parse r = Parsed soup \<and> find_main_container L soup = Some c \<longrightarrow>
           (\<exists>rec. fst (scrape_document C L net url tr) = OK rec \<and> intentos_realizados rec = 3)"
  proof (intro allI impI, elim conjE)
    fix soup c
    assume "parse r = Parsed soup" "find_main_container L soup = Some c"
    from process_response_ok[OF this, of ?u 3]
    show "\<exists>rec. fst (scrape_document C L net url tr) = OK rec \<and> intentos_realizados rec = 3"
      unfolding p1 by auto
  qed
  have p3: "\<forall>soup. parse r = Parsed soup \<and> find_main_container L soup = None \<longrightarrow>
           status (fst (scrape_document C L net url tr)) = ''ERROR''
           \<and> record_error_type (fst (scrape_document C L net url tr)) = Some ''parsing_error''"
  proof (intro allI impI, elim conjE)
    fix soup
    assume "parse r = Parsed soup" "find_main_container L soup = None"
    from process_response_no_container[OF this, of ?u 3]
    show "status (fst (scrape_document C L net url tr)) = ''ERROR''
           \<and> record_error_type (fst (scrape_document C L net url tr)) = Some ''parsing_error''"
      unfolding p1 by (simp add: create_error_response_def)
  qed
  have p4: "\<forall>e. parse r = Parse_raises e \<longrightarrow>
           status (fst (scrape_document C L net url tr)) = ''ERROR''
           \<and> record_error_type (fst (scrape_document C L net url tr)) = Some ''processing_error''"
  proof (intro allI impI)
    fix e
    assume "parse r = Parse_raises e"
    from process_response_parse_raises[OF this, of L ?u 3]
    show "status (fst (scrape_document C L net url tr)) = ''ERROR''
           \<and> record_error_type (fst (scrape_document C L net url tr)) = Some ''processing_error''"
      unfolding p1 by (simp add: create_error_response_def)
  qed
  show ?thesis using p1 p2 p3 p4 by (intro conjI)
qed


text \<open>
  The default configuration (base 3) against a server that fails in transport twice
  and then serves \<open>example_page\<close>: the waits 3, 6 and 12 and a success at attempt 3.
\<close>

theorem retry_backoff_sequence_witness:
  "validate_url default_config latin1 adres_url
   \<and> max_retries default_config = 3
   \<and> \<not> request_succeeds default_config (Raises RequestException)
   \<and> request_succeeds default_config (Returns good_response)
   \<and> snd (scrape_document default_config latin1
        (\<lambda>u n. if n < 2 then Raises RequestException else Returns good_response) (Some adres_url) []) =
        [Ethical_wait 3, Http_get adres_url, Backoff_wait 6, Http_get adres_url,
         Backoff_wait 12, Http_get adres_url]
   \<and> (\<exists>rec. fst (scrape_document default_config latin1
        (\<lambda>u n. if n < 2 then Raises RequestException else Returns good_response) (Some adres_url) []) = OK rec
        \<and> intentos_realizados rec = 3)"
proof -
  let ?net = "\<lambda>(u::pystr) (n::nat). if n < 2 then Raises RequestException else Returns good_response"
  have v: "validate_url default_config latin1 (target_url default_config (Some adres_url))"
    using adres_url_valid by simp
  have m: "max_retries default_config = 3" by (simp add: default_config_def)
  have f: "\<not> request_succeeds default_config (Raises RequestException)"
    by (simp add: request_succeeds_def)
  have g: "request_succeeds default_config (Returns good_response)"
    by (simp add: request_succeeds_def good_response_def response_ok_def default_config_def)
  have f0: "\<not> request_succeeds default_config (?net (target_url default_config (Some adres_url)) (requests_made []))"
    using f by simp
  have f1: "\<not> request_succeeds default_config (?net (target_url default_config (Some adres_url)) (requests_made [] + 1))"
    using f by simp
  have g2: "?net (target_url default_config (Some adres_url)) (requests_made [] + 2) = Returns good_response"
    by simp
  note th = retry_backoff_sequence[of default_config latin1 "Some adres_url" ?net "[]" good_response,
      OF v default_delay m f0 f1 g2 g]
  have tr: "snd (scrape_document default_config latin1 ?net (Some adres_url) []) =
        [Ethical_wait 3, Http_get adres_url, Backoff_wait 6, Http_get adres_url,
         Backoff_wait 12, Http_get adres_url]"
    unfolding th[THEN conjunct1] by (simp add: default_config_def)
  have ok: "\<exists>rec. fst (scrape_document default_config latin1 ?net (Some adres_url) []) = OK rec
        \<and> intentos_realizados rec = 3"
    using th[THEN conjunct2, THEN conjunct1, THEN spec, THEN spec, THEN mp, of example_page main_element]
      example_page_container by (simp add: good_response_def)
  show ?thesis using adres_url_valid m f g tr ok by (intro conjI)
qed


text \<open>
  Claim C5 as it is stated, that the result is a success, fails: when the third
  request succeeds with a document that has no element, so no container and no
  \<open>body\<close>, the record is the \<open>parsing_error\<close> record, after the same waits and
  requests.
\<close>

theorem retry_success_counterexample:
  "validate_url default_config latin1 adres_url
   \<and> max_retries default_config = 3
   \<and> \<not> request_succeeds default_config (Raises RequestException)
   \<and> request_succeeds default_config (Returns empty_response)
   \<and> scrape_document default_config latin1
        (\<lambda>u n. if n < 2 then Raises RequestException else Returns empty_response) (Some adres_url) [] =
        (create_error_response adres_url No_container ''parsing_error'',
         [Ethical_wait 3, Http_get adres_url, Backoff_wait 6, Http_get adres_url,
          Backoff_wait 12, Http_get adres_url])
   \<and> status (create_error_response adres_url No_container ''parsing_error'') = ''ERROR''"
proof -
  let ?net = "\<lambda>(u::pystr) (n::nat). if n < 2 then Raises RequestException else Returns empty_response"
  have v: "validate_url default_config latin1 (target_url default_config (Some adres_url))"
    using adres_url_valid by simp
  have m: "max_retries default_config = 3" by (simp add: default_config_def)
  have f: "\<not> request_succeeds default_config (Raises RequestException)"
    by (simp add: request_succeeds_def)
  have g: "request_succeeds default_config (Returns empty_response)"
    by (simp add: request_succeeds_def empty_response_def good_response_def response_ok_def
        default_config_def)
  have f0: "\<not> request_succeeds default_config (?net (target_url default_config (Some adres_url)) (requests_made []))"
    using f by simp
  have f1: "\<not> request_succeeds default_config (?net (target_url default_config (Some adres_url)) (requests_made [] + 1))"
    using f by simp
  have g2: "?net (target_url default_config (Some adres_url)) (requests_made [] + 2) = Returns empty_response"
    by simp
  note run = two_failures_then_response[of default_config latin1 "Some adres_url" ?net "[]" empty_response,
      OF v default_delay m f0 f1 g2 g]
  have pr: "process_response latin1 empty_response adres_url 3 =
      create_error_response adres_url No_container ''parsing_error''"
    using process_response_no_container[of empty_response "[]" latin1 adres_url 3]
      empty_soup_no_container by (simp add: empty_response_def)
  have sd: "scrape_document default_config latin1 ?net (Some adres_url) [] =
        (create_error_response adres_url No_container ''parsing_error'',
         [Ethical_wait 3, Http_get adres_url, Backoff_wait 6, Http_get adres_url,
          Backoff_wait 12, Http_get adres_url])"
  proof -
    have d: "delay_between_requests default_config = 3" by (simp add: default_config_def)
    show ?thesis using run pr by (simp add: d)
  qed
  have st: "status (create_error_response adres_url No_container ''parsing_error'') = ''ERROR''"
    by (simp add: create_error_response_def)
  show ?thesis using adres_url_valid m f g sd st by (intro conjI)
qed


subsection \<open>Batches\<close>









lemma evil_target [simp]: "target_url C (Some evil_url) = evil_url"
  using evil_url_nonempty by (simp add: target_url_def)






end
